theory Spec2Isabelle
  imports Complex_Main "HOL-Library.AList"
begin

section \<open>JavaScript strings\<close>

text \<open>
  Strings are byte lists. \<open>toLowerCase\<close> is modelled on the ASCII letters, \<open>includes_str\<close> is
  the substring test of \<^verbatim>\<open>String.prototype.includes\<close>, and \<open>show_nat\<close> is the decimal
  rendering a template literal gives a non-negative integer.
\<close>

definition lower_char :: "char \<Rightarrow> char" where
  "lower_char c =
     (case map_of (zip ''ABCDEFGHIJKLMNOPQRSTUVWXYZ'' ''abcdefghijklmnopqrstuvwxyz'') c of
        Some l \<Rightarrow> l
      | None \<Rightarrow> c)"

definition toLowerCase :: "string \<Rightarrow> string" where
  "toLowerCase s = map lower_char s"

fun startsWith :: "string \<Rightarrow> string \<Rightarrow> bool" where
  "startsWith s [] = True"
| "startsWith [] (k # ks) = False"
| "startsWith (c # cs) (k # ks) = (c = k \<and> startsWith cs ks)"

fun includes_str :: "string \<Rightarrow> string \<Rightarrow> bool" where
  "includes_str [] k = (k = [])"
| "includes_str (c # cs) k = (startsWith (c # cs) k \<or> includes_str cs k)"

definition digit_char :: "nat \<Rightarrow> char" where
  "digit_char d = ''0123456789'' ! d"

function show_nat :: "nat \<Rightarrow> string" where
  "show_nat n = (if n < 10 then [digit_char n] else show_nat (n div 10) @ [digit_char (n mod 10)])"
  by pat_completeness auto
termination
  by (relation "measure (\<lambda>n. n)") auto

declare show_nat.simps [simp del]

section \<open>The SQLite ledger (db.js)\<close>

text \<open>
  The tables the ledger functions read and write. The \<open>api_calls\<close> table has one row per
  calendar date; the ISO date string \<^verbatim>\<open>new Date().toISOString().split('T')[0]\<close> is
  represented by the number of the UTC day, which determines it.
\<close>

record detection_row =
  d_ip :: string
  d_timestamp :: int
  d_disease :: "string option"
  d_confidence :: "real option"
  d_processing_time :: "int option"
  d_success :: bool
  d_error_message :: "string option"
  d_user_agent :: "string option"

record api_calls_row =
  model_1_calls :: int
  model_2_calls :: int
  total_calls :: int

record rate_limit_row =
  request_count :: int
  first_request :: int
  last_request :: int
  blocked :: bool

record database =
  detections :: "detection_row list"
  api_calls :: "int \<rightharpoonup> api_calls_row"
  rate_limits :: "string \<rightharpoonup> rate_limit_row"

text \<open>
  Every ledger function wraps its statements in \<^verbatim>\<open>try { ... } catch\<close>. Which prepared
  statements throw during one call is an input of the model.
\<close>

datatype statement =
  InsertDetection | IncrementAPICalls | GetRecentDetections | UpdateRateLimit
  | GetRateLimit | BlockIP | SelectAPICalls

type_synonym faults = "statement \<Rightarrow> bool"

definition no_faults :: faults where
  "no_faults = (\<lambda>_. False)"

definition today :: "int \<Rightarrow> int" where
  "today now = now div 86400000"

definition insertDetection :: "detection_row \<Rightarrow> database \<Rightarrow> database" where
  "insertDetection row db = db\<lparr>detections := detections db @ [row]\<rparr>"

definition incrementAPICalls :: "int \<Rightarrow> int \<Rightarrow> int \<Rightarrow> int \<Rightarrow> database \<Rightarrow> database" where
  "incrementAPICalls date m1 m2 tot db =
     (case api_calls db date of
        None \<Rightarrow> db\<lparr>api_calls := (api_calls db)(date \<mapsto>
                  \<lparr>model_1_calls = m1, model_2_calls = m2, total_calls = tot\<rparr>)\<rparr>
      | Some r \<Rightarrow> db\<lparr>api_calls := (api_calls db)(date \<mapsto>
                  \<lparr>model_1_calls = model_1_calls r + m1,
                   model_2_calls = model_2_calls r + m2,
                   total_calls = total_calls r + tot\<rparr>)\<rparr>)"

definition getRecentDetections :: "database \<Rightarrow> string \<Rightarrow> int \<Rightarrow> int" where
  "getRecentDetections db ip cutoff =
     int (length (filter (\<lambda>r. d_ip r = ip \<and> d_timestamp r > cutoff \<and> d_success r)
                         (detections db)))"

definition updateRateLimit :: "string \<Rightarrow> int \<Rightarrow> int \<Rightarrow> database \<Rightarrow> database" where
  "updateRateLimit ip t_first t_last db =
     (case rate_limits db ip of
        None \<Rightarrow> db\<lparr>rate_limits := (rate_limits db)(ip \<mapsto>
                  \<lparr>request_count = 1, first_request = t_first, last_request = t_last,
                   blocked = False\<rparr>)\<rparr>
      | Some r \<Rightarrow> db\<lparr>rate_limits := (rate_limits db)(ip \<mapsto>
                  r\<lparr>request_count := request_count r + 1, last_request := t_last\<rparr>)\<rparr>)"

definition blockIP :: "string \<Rightarrow> database \<Rightarrow> database" where
  "blockIP ip db =
     (case rate_limits db ip of
        None \<Rightarrow> db
      | Some r \<Rightarrow> db\<lparr>rate_limits := (rate_limits db)(ip \<mapsto> r\<lparr>blocked := True\<rparr>)\<rparr>)"

text \<open>
  \<open>logDetection\<close>: one row per attempt, and two upstream calls accounted for on the day's
  \<open>api_calls\<close> row when the attempt is logged as a success. A failing statement is caught
  and logged; the statements before it keep their effect.
\<close>

definition logDetection ::
  "faults \<Rightarrow> int \<Rightarrow> string \<Rightarrow> string option \<Rightarrow> real option \<Rightarrow> int option \<Rightarrow> bool \<Rightarrow>
   string option \<Rightarrow> string option \<Rightarrow> database \<Rightarrow> database" where
  "logDetection F now ip disease confidence processingTime success errorMessage userAgent db =
     (if F InsertDetection then db
      else
        let db1 = insertDetection
              \<lparr>d_ip = ip, d_timestamp = now, d_disease = disease, d_confidence = confidence,
               d_processing_time = processingTime, d_success = success,
               d_error_message = errorMessage, d_user_agent = userAgent\<rparr> db
        in if success
           then (if F IncrementAPICalls then db1 else incrementAPICalls (today now) 1 1 2 db1)
           else db1)"

record rate_limit_result =
  allowed :: bool
  reason :: "string option"
  count :: "int option"
  remaining :: "int option"

definition checkRateLimit ::
  "faults \<Rightarrow> int \<Rightarrow> string \<Rightarrow> int \<Rightarrow> int \<Rightarrow> database \<Rightarrow> rate_limit_result \<times> database" where
  "checkRateLimit F now ip windowMinutes maxRequests db =
     (let fail_open = \<lparr>allowed = True, reason = None, count = None, remaining = None\<rparr>;
          cutoff = now - windowMinutes * 60 * 1000
      in if F GetRecentDetections then (fail_open, db)
         else
           let cnt = getRecentDetections db ip cutoff
           in if F UpdateRateLimit then (fail_open, db)
              else
                let db1 = updateRateLimit ip now now db
                in if F GetRateLimit then (fail_open, db1)
                   else if (case rate_limits db1 ip of None \<Rightarrow> False | Some r \<Rightarrow> blocked r)
                   then (\<lparr>allowed = False, reason = Some ''IP blocked due to abuse'',
                          count = None, remaining = None\<rparr>, db1)
                   else if cnt \<ge> maxRequests
                   then (if cnt \<ge> maxRequests * 2
                         then (if F BlockIP then (fail_open, db1)
                               else (\<lparr>allowed = False,
                                      reason = Some ''IP blocked due to excessive requests'',
                                      count = None, remaining = None\<rparr>, blockIP ip db1))
                         else (\<lparr>allowed = False, reason = Some ''Rate limit exceeded'',
                                count = Some cnt, remaining = None\<rparr>, db1))
                   else (\<lparr>allowed = True, reason = None, count = Some cnt,
                          remaining = Some (maxRequests - cnt)\<rparr>, db1))"

definition getAPIUsageToday :: "faults \<Rightarrow> int \<Rightarrow> database \<Rightarrow> api_calls_row" where
  "getAPIUsageToday F now db =
     (let zero = \<lparr>model_1_calls = 0, model_2_calls = 0, total_calls = 0\<rparr>
      in if F SelectAPICalls then zero
         else (case api_calls db (today now) of None \<Rightarrow> zero | Some r \<Rightarrow> r))"

section \<open>The server: configuration and process-wide state\<close>

text \<open>
  \<^verbatim>\<open>process.env\<close> as the handler reads it. A threshold variable holds what \<^verbatim>\<open>parseFloat\<close>
  makes of it (\<open>None\<close> when unset or not a number), the daily limit what \<^verbatim>\<open>parseInt\<close>
  makes of it. JavaScript numbers are modelled as reals: multiplication and the decimal
  rounding of \<^verbatim>\<open>toFixed\<close> are exact here.
\<close>

record config =
  ROBOFLOW_API_KEY :: "string option"
  MODEL_1_URL :: "string option"
  MODEL_2_URL :: "string option"
  MODEL_1_THRESHOLD :: "real option"
  MODEL_2_THRESHOLD :: "real option"
  DAILY_API_LIMIT_env :: "int option"

definition truthy :: "string option \<Rightarrow> bool" where
  "truthy v = (case v of None \<Rightarrow> False | Some s \<Rightarrow> s \<noteq> [])"

definition MAX_CONCURRENT_UPLOADS :: nat where
  "MAX_CONCURRENT_UPLOADS = 10"

definition DAILY_API_LIMIT :: "config \<Rightarrow> int" where
  "DAILY_API_LIMIT cfg =
     (case DAILY_API_LIMIT_env cfg of None \<Rightarrow> 5000 | Some n \<Rightarrow> if n = 0 then 5000 else n)"

definition threshold_or_default :: "real option \<Rightarrow> real" where
  "threshold_or_default v = (case v of None \<Rightarrow> 0.50 | Some t \<Rightarrow> if t = 0 then 0.50 else t)"

record circuit =
  apiFailureCount :: nat
  circuitOpen :: bool
  lastFailureTime :: int

record prediction =
  p_class :: string
  p_confidence :: real
  p_x :: real
  p_y :: real
  p_width :: real
  p_height :: real

record api_data =
  predictions :: "prediction list option"
  image_width :: real
  image_height :: real

record http_response =
  resp_status :: nat
  resp_data :: api_data
  resp_json :: string

record js_error =
  err_code :: "string option"
  err_name :: string
  err_message :: string
  err_response :: "http_response option"

definition Error :: "string \<Rightarrow> js_error" where
  "Error msg = \<lparr>err_code = None, err_name = ''Error'', err_message = msg, err_response = None\<rparr>"

section \<open>The inference client (callRoboflowAPI)\<close>

text \<open>
  What the network does to one request: an HTTP response, or a transport failure with the
  \<open>code\<close>, \<open>name\<close> and \<open>message\<close> of the error object. \<open>axios_post\<close> is the axios
  library's settling rule under the \<open>validateStatus\<close> option the source passes: the promise
  resolves with the response when \<open>validateStatus\<close> accepts the status, and is rejected
  with an error carrying the response otherwise.
\<close>

datatype upstream =
  HttpResponse http_response
  | TransportFailure "string option" string string

datatype axios_result = Resolved http_response | Rejected js_error

definition validateStatus :: "nat \<Rightarrow> bool" where
  "validateStatus status = (status < 600)"

definition axios_post :: "upstream \<Rightarrow> axios_result" where
  "axios_post up =
     (case up of
        HttpResponse r \<Rightarrow>
          if validateStatus (resp_status r) then Resolved r
          else Rejected
            \<lparr>err_code = (if 400 \<le> resp_status r \<and> resp_status r < 500
                          then Some ''ERR_BAD_REQUEST'' else Some ''ERR_BAD_RESPONSE''),
             err_name = ''AxiosError'',
             err_message = ''Request failed with status code '' @ show_nat (resp_status r),
             err_response = Some r\<rparr>
      | TransportFailure c n m \<Rightarrow>
          Rejected \<lparr>err_code = c, err_name = n, err_message = m, err_response = None\<rparr>)"

text \<open>The part of \<open>callRoboflowAPI\<close> that runs before the request is sent.\<close>

definition callRoboflowAPI_enter ::
  "config \<Rightarrow> string option \<Rightarrow> int \<Rightarrow> circuit \<Rightarrow> (js_error + string) \<times> circuit" where
  "callRoboflowAPI_enter cfg modelUrl now c =
     (if circuitOpen c \<and> now - lastFailureTime c < 60000
      then (Inl (Error ''Service temporarily unavailable - too many failures''), c)
      else
        let c1 = (if circuitOpen c then c\<lparr>circuitOpen := False, apiFailureCount := 0\<rparr> else c)
        in (case ROBOFLOW_API_KEY cfg of
              None \<Rightarrow> (Inl (Error ''API key not configured''), c1)
            | Some apiKey \<Rightarrow>
                if apiKey = [] then (Inl (Error ''API key not configured''), c1)
                else (case modelUrl of
                        None \<Rightarrow> (Inl (Error ''Model URL not configured''), c1)
                      | Some url \<Rightarrow>
                          if url = [] then (Inl (Error ''Model URL not configured''), c1)
                          else (Inr (url @ ''?api_key='' @ apiKey), c1))))"

text \<open>The \<open>catch\<close> block: failure accounting, then the error that is thrown on.\<close>

definition rethrown :: "js_error \<Rightarrow> js_error" where
  "rethrown e =
     (if err_code e = Some ''ECONNABORTED'' \<or> err_name e = ''AbortError''
      then Error ''Request timeout''
      else if err_code e = Some ''ENOTFOUND'' then Error ''DNS lookup failed''
      else if err_code e = Some ''ECONNREFUSED'' then Error ''Connection refused''
      else (case err_response e of
              Some r \<Rightarrow>
                if resp_status r = 429 then Error ''API rate limit exceeded''
                else if resp_status r = 401 \<or> resp_status r = 403
                then Error ''Authentication failed''
                else if resp_status r = 400 then Error ''Invalid image data''
                else Error (''API request failed with status '' @ show_nat (resp_status r))
            | None \<Rightarrow> Error (''Network error - '' @ err_message e)))"

definition catch_block :: "js_error \<Rightarrow> int \<Rightarrow> circuit \<Rightarrow> (js_error + api_data) \<times> circuit" where
  "catch_block e now c =
     (let c1 = c\<lparr>apiFailureCount := apiFailureCount c + 1, lastFailureTime := now\<rparr>;
          c2 = (if apiFailureCount c1 \<ge> 5 then c1\<lparr>circuitOpen := True\<rparr> else c1)
      in (Inl (rethrown e), c2))"

text \<open>The part of \<open>callRoboflowAPI\<close> that runs once the request has settled.\<close>

definition callRoboflowAPI_await ::
  "axios_result \<Rightarrow> int \<Rightarrow> circuit \<Rightarrow> (js_error + api_data) \<times> circuit" where
  "callRoboflowAPI_await res now c =
     (case res of
        Resolved r \<Rightarrow>
          if resp_status r \<noteq> 200
          then catch_block (Error (''HTTP '' @ show_nat (resp_status r) @ '': '' @ resp_json r)) now c
          else (Inr (resp_data r), c\<lparr>apiFailureCount := 0\<rparr>)
      | Rejected e \<Rightarrow> catch_block e now c)"

text \<open>
  One whole call: the result, the breaker afterwards, and the URLs a request was sent to
  (none or one).
\<close>

definition callRoboflowAPI ::
  "config \<Rightarrow> string option \<Rightarrow> int \<Rightarrow> upstream \<Rightarrow> int \<Rightarrow> circuit \<Rightarrow>
   (js_error + api_data) \<times> circuit \<times> string list" where
  "callRoboflowAPI cfg modelUrl t_call up t_done c =
     (case callRoboflowAPI_enter cfg modelUrl t_call c of
        (Inl e, c1) \<Rightarrow> (Inl e, c1, [])
      | (Inr url, c1) \<Rightarrow>
          (case callRoboflowAPI_await (axios_post up) t_done c1 of
             (r, c2) \<Rightarrow> (r, c2, [url])))"

text \<open>The breaker after the listed requests have settled, in this order, each at its time.\<close>

definition settle_all :: "(axios_result \<times> int) list \<Rightarrow> circuit \<Rightarrow> circuit" where
  "settle_all outs c =
     foldl (\<lambda>c' out. snd (callRoboflowAPI_await (fst out) (snd out) c')) c outs"

definition safeErrors :: "(string \<times> string) list" where
  "safeErrors =
     [(''Request timeout'', ''The request took too long. Please try again.''),
      (''API rate limit exceeded'', ''Service limit reached. Please try again in a moment.''),
      (''Authentication failed'', ''Service temporarily unavailable.''),
      (''Invalid image data'', ''Invalid image format. Please try a different image.''),
      (''DNS lookup failed'', ''Cannot reach detection service.''),
      (''Connection refused'', ''Detection service not responding.''),
      (''API key not configured'', ''Service configuration error.''),
      (''Model URL not configured'', ''Service configuration error.''),
      (''Service temporarily unavailable - too many failures'',
       ''Service temporarily unavailable. Please try again in a minute.'')]"

definition sanitizeError :: "js_error \<Rightarrow> string" where
  "sanitizeError e =
     (case find (\<lambda>kv. includes_str (err_message e) (fst kv)) safeErrors of
        Some kv \<Rightarrow> snd kv
      | None \<Rightarrow> ''An error occurred during processing.'')"

section \<open>The detection handler (POST /api/detect)\<close>

record upload_file =
  originalname :: string
  mimetype :: string
  buffer :: string

record request =
  req_ip :: string
  req_user_agent :: "string option"
  req_file :: "upload_file option"
  req_body_valid :: bool

text \<open>
  What one run of the handler gets from outside: the upload id it draws from the clock and
  \<^verbatim>\<open>Math.random\<close>, the clock readings, the ledger statements that throw, the base64 text
  of the optimised image, what the network does to each of the two calls, and which of the
  two settles first.
\<close>

record world =
  uploadId :: string
  startTime :: int
  ledger_faults :: faults
  base64Image :: string
  callTime :: int
  upstream1 :: upstream
  upstream2 :: upstream
  doneTime1 :: int
  doneTime2 :: int
  first_settled1 :: bool
  endTime :: int

record server =
  activeUploads :: "(string \<times> bool) list"
  breaker :: circuit
  ledger :: database

text \<open>
  The history of one run: the statements on the slot map, the read of the daily usage row
  and the requests sent upstream, in program order.
\<close>

datatype event = SlotSet string | SlotDelete string | UsageRead | UpstreamPost string

record candidate =
  c_class :: string
  c_confidence :: real
  c_x :: real
  c_y :: real
  c_width :: real
  c_height :: real

record response_data =
  model1_class :: string
  model1_confidence :: real
  model2_class :: string
  model2_confidence :: real
  boundingBox :: "real \<times> real \<times> real \<times> real"
  imageData :: string
  imageWidth :: real
  imageHeight :: real
  allPredictions :: "candidate list"
  timestamp :: int
  processingTime :: int

text \<open>
  One constructor for each place where the handler answers: \<open>Capacity_error\<close> (503,
  type capacity_error), \<open>Api_limit_error\<close> (503, api_limit_error), \<open>Rate_limit_error\<close>
  (429, with the ledger's reason), \<open>No_image_file\<close> and \<open>Invalid_parameters\<close> (400),
  \<open>Service_unavailable\<close> (503, model URLs missing), \<open>No_predictions_model1\<close> (400),
  \<open>Not_calamansi\<close> and \<open>Low_confidence\<close> (400, validation_error, with the percentage
  shown), \<open>No_disease_signs\<close> (400), \<open>Low_disease_confidence\<close> (400, validation_error),
  \<open>Detected\<close> (200, the result) and \<open>Server_error\<close> (500, with the sanitised text).
\<close>

datatype response =
  Capacity_error
  | Api_limit_error
  | Rate_limit_error "string option"
  | No_image_file
  | Invalid_parameters
  | Service_unavailable
  | No_predictions_model1
  | Not_calamansi real
  | Low_confidence real
  | No_disease_signs
  | Low_disease_confidence real
  | Detected response_data
  | Server_error string

text \<open>The number that \<^verbatim>\<open>v.toFixed(2)\<close> writes: \<open>v\<close> to two decimals, halves away from zero.\<close>

definition toFixed2 :: "real \<Rightarrow> real" where
  "toFixed2 v =
     (if v < 0 then - (of_int \<lfloor>- v * 100 + 1 / 2\<rfloor> / 100) else of_int \<lfloor>v * 100 + 1 / 2\<rfloor> / 100)"

text \<open>\<^verbatim>\<open>predictions.reduce((max, pred) => pred.confidence > max.confidence ? pred : max, predictions[0])\<close>\<close>

definition top_of :: "prediction \<Rightarrow> prediction list \<Rightarrow> prediction" where
  "top_of first preds =
     foldl (\<lambda>mx pred. if p_confidence pred > p_confidence mx then pred else mx) first preds"

definition to_candidate :: "prediction \<Rightarrow> candidate" where
  "to_candidate p =
     \<lparr>c_class = p_class p, c_confidence = toFixed2 (p_confidence p * 100),
      c_x = p_x p, c_y = p_y p, c_width = p_width p, c_height = p_height p\<rparr>"

definition predictions_or_empty :: "api_data \<Rightarrow> prediction list" where
  "predictions_or_empty d = (case predictions d of None \<Rightarrow> [] | Some ps \<Rightarrow> ps)"

text \<open>
  The checks on the two model results, from \<^verbatim>\<open>// Validate Model 1 results\<close> to
  \<^verbatim>\<open>res.json(responseData)\<close>: the answer and the ledger after the attempt is logged.
\<close>

definition detect_decide ::
  "config \<Rightarrow> request \<Rightarrow> upload_file \<Rightarrow> world \<Rightarrow> api_data \<Rightarrow> api_data \<Rightarrow> database \<Rightarrow>
   response \<times> database" where
  "detect_decide cfg req file w model1Data model2Data db =
     (let F = ledger_faults w; now = endTime w; elapsed = Some (endTime w - startTime w);
          ip = req_ip req; ua = req_user_agent req
      in case predictions_or_empty model1Data of
           [] \<Rightarrow> (No_predictions_model1,
                  logDetection F now ip None None elapsed False
                    (Some ''No predictions from model 1'') ua db)
         | p # ps \<Rightarrow>
             let topPrediction = top_of p (p # ps);
                 predictedClass = toLowerCase (p_class topPrediction);
                 confidence1 = p_confidence topPrediction;
                 threshold1 = threshold_or_default (MODEL_1_THRESHOLD cfg);
                 isNotCalamansi =
                   (includes_str predictedClass ''not'' \<or> predictedClass = ''not calamansi''
                    \<or> predictedClass = ''not-calamansi'' \<or> predictedClass = ''not_calamansi'')
             in if isNotCalamansi \<and> confidence1 > 0.70
                then (Not_calamansi (toFixed2 (confidence1 * 100)),
                      logDetection F now ip None (Some confidence1) elapsed False
                        (Some ''Not calamansi detected'') ua db)
                else if \<not> isNotCalamansi \<and> confidence1 < threshold1
                then (Low_confidence (toFixed2 (confidence1 * 100)),
                      logDetection F now ip (Some predictedClass) (Some confidence1) elapsed False
                        (Some ''Low confidence'') ua db)
                else (case predictions_or_empty model2Data of
                        [] \<Rightarrow> (No_disease_signs,
                               logDetection F now ip (Some predictedClass) (Some confidence1)
                                 elapsed False (Some ''No disease predictions'') ua db)
                      | q # qs \<Rightarrow>
                          let topDiseasePrediction = top_of q (q # qs);
                              threshold2 = threshold_or_default (MODEL_2_THRESHOLD cfg)
                          in if p_confidence topDiseasePrediction < threshold2
                             then (Low_disease_confidence
                                     (toFixed2 (p_confidence topDiseasePrediction * 100)),
                                   logDetection F now ip (Some (p_class topDiseasePrediction))
                                     (Some (p_confidence topDiseasePrediction)) elapsed False
                                     (Some ''Low disease confidence'') ua db)
                             else (Detected
                                     \<lparr>model1_class = predictedClass,
                                      model1_confidence = toFixed2 (confidence1 * 100),
                                      model2_class = toLowerCase (p_class topDiseasePrediction),
                                      model2_confidence =
                                        toFixed2 (p_confidence topDiseasePrediction * 100),
                                      boundingBox =
                                        (p_x topDiseasePrediction, p_y topDiseasePrediction,
                                         p_width topDiseasePrediction,
                                         p_height topDiseasePrediction),
                                      imageData =
                                        ''data:'' @ mimetype file @ '';base64,'' @ base64Image w,
                                      imageWidth = image_width model2Data,
                                      imageHeight = image_height model2Data,
                                      allPredictions = map to_candidate (take 5 (q # qs)),
                                      timestamp = now,
                                      processingTime = endTime w - startTime w\<rparr>,
                                   logDetection F now ip (Some (p_class topDiseasePrediction))
                                     (Some (p_confidence topDiseasePrediction)) elapsed True
                                     None ua db)))"

text \<open>
  \<^verbatim>\<open>Promise.all([callRoboflowAPI(model1Url, ...), callRoboflowAPI(model2Url, ...)])\<close>. Both
  calls run up to their request in the order written; the two requests then settle in
  the order the network decides, and each continuation updates the breaker when it runs.
  The joined promise is rejected with the first rejection in time: a call that threw
  before sending has rejected before any request settles.
\<close>

definition settle_call ::
  "(js_error + string) \<Rightarrow> upstream \<Rightarrow> int \<Rightarrow> circuit \<Rightarrow> (js_error + api_data) \<times> circuit" where
  "settle_call entered up now c =
     (case entered of
        Inl e \<Rightarrow> (Inl e, c)
      | Inr url \<Rightarrow> callRoboflowAPI_await (axios_post up) now c)"

definition join_all ::
  "(js_error + api_data) \<Rightarrow> (js_error + api_data) \<Rightarrow> bool \<Rightarrow> js_error + api_data \<times> api_data" where
  "join_all r1 r2 first1 =
     (case (r1, r2) of
        (Inr d1, Inr d2) \<Rightarrow> Inr (d1, d2)
      | (Inl e1, Inr d2) \<Rightarrow> Inl e1
      | (Inr d1, Inl e2) \<Rightarrow> Inl e2
      | (Inl e1, Inl e2) \<Rightarrow> if first1 then Inl e1 else Inl e2)"

definition sent_to :: "(js_error + string) \<Rightarrow> string list" where
  "sent_to entered = (case entered of Inl e \<Rightarrow> [] | Inr url \<Rightarrow> [url])"

definition fanout ::
  "config \<Rightarrow> world \<Rightarrow> circuit \<Rightarrow> (js_error + api_data \<times> api_data) \<times> circuit \<times> string list" where
  "fanout cfg w c =
     (case callRoboflowAPI_enter cfg (MODEL_1_URL cfg) (callTime w) c of
        (b1, c1) \<Rightarrow>
          (case callRoboflowAPI_enter cfg (MODEL_2_URL cfg) (callTime w) c1 of
             (b2, c2) \<Rightarrow>
               let first1 = (isl b1 \<or> (\<not> isl b2 \<and> first_settled1 w))
               in if first1
                  then (case settle_call b1 (upstream1 w) (doneTime1 w) c2 of
                          (r1, c3) \<Rightarrow>
                            (case settle_call b2 (upstream2 w) (doneTime2 w) c3 of
                               (r2, c4) \<Rightarrow> (join_all r1 r2 True, c4, sent_to b1 @ sent_to b2)))
                  else (case settle_call b2 (upstream2 w) (doneTime2 w) c2 of
                          (r2, c3) \<Rightarrow>
                            (case settle_call b1 (upstream1 w) (doneTime1 w) c3 of
                               (r1, c4) \<Rightarrow> (join_all r1 r2 False, c4, sent_to b1 @ sent_to b2)))))"

text \<open>
  The handler runs to completion between its \<^verbatim>\<open>await\<close>s, and other requests run at the
  \<^verbatim>\<open>await\<close>s. \<open>detect_checks\<close> is the part from \<^verbatim>\<open>// CHECK 2: Daily API limit\<close> to the
  validation of the request body, with no \<^verbatim>\<open>await\<close> in it: it either answers (\<open>Inl\<close>) or
  goes on with the uploaded file (\<open>Inr\<close>).
\<close>

definition detect_checks ::
  "config \<Rightarrow> request \<Rightarrow> world \<Rightarrow> server \<Rightarrow>
   (response \<times> server \<times> event list) + (upload_file \<times> server \<times> event list)" where
  "detect_checks cfg req w s =
     (let F = ledger_faults w; apiUsage = getAPIUsageToday F (startTime w) (ledger s)
      in if total_calls apiUsage \<ge> DAILY_API_LIMIT cfg
         then Inl (Api_limit_error, s, [UsageRead])
         else
           (case checkRateLimit F (startTime w) (req_ip req) 60 20 (ledger s) of
              (rateLimitCheck, db1) \<Rightarrow>
                if \<not> allowed rateLimitCheck
                then Inl (Rate_limit_error (reason rateLimitCheck),
                          s\<lparr>ledger := logDetection F (startTime w) (req_ip req) None None None
                                         False (reason rateLimitCheck) (req_user_agent req) db1\<rparr>,
                          [UsageRead])
                else
                  (case req_file req of
                     None \<Rightarrow> Inl (No_image_file, s\<lparr>ledger := db1\<rparr>, [UsageRead])
                   | Some file \<Rightarrow>
                       if \<not> req_body_valid req
                       then Inl (Invalid_parameters, s\<lparr>ledger := db1\<rparr>, [UsageRead])
                       else Inr (file, s\<lparr>ledger := db1\<rparr>, [UsageRead]))))"

text \<open>
  \<open>detect_pipeline\<close> is the part after \<^verbatim>\<open>await optimizeImage(...)\<close>, up to the end of
  the \<^verbatim>\<open>catch\<close> block: the model URLs, the two upstream calls, the decision and the log
  entry. It runs on the state it finds when the handler is resumed.
\<close>

definition detect_pipeline ::
  "config \<Rightarrow> request \<Rightarrow> upload_file \<Rightarrow> world \<Rightarrow> server \<Rightarrow> response \<times> server \<times> event list" where
  "detect_pipeline cfg req file w s =
     (if \<not> truthy (MODEL_1_URL cfg) \<or> \<not> truthy (MODEL_2_URL cfg)
      then (Service_unavailable, s, [])
      else
        (case fanout cfg w (breaker s) of
           (Inl error, c, sent) \<Rightarrow>
             (Server_error (sanitizeError error),
              s\<lparr>breaker := c,
                ledger := logDetection (ledger_faults w) (endTime w) (req_ip req) None None
                            (Some (endTime w - startTime w)) False
                            (Some (err_message error)) (req_user_agent req) (ledger s)\<rparr>,
              map UpstreamPost sent)
         | (Inr (model1Data, model2Data), c, sent) \<Rightarrow>
             (case detect_decide cfg req file w model1Data model2Data (ledger s) of
                (resp, db2) \<Rightarrow>
                  (resp, s\<lparr>breaker := c, ledger := db2\<rparr>, map UpstreamPost sent))))"

text \<open>
  The handler split at its first \<^verbatim>\<open>await\<close>. \<open>detect_entry\<close> runs from the arrival of the
  request: the capacity check, the insertion of the upload id into the slot map and the
  checks. When it answers, the \<^verbatim>\<open>finally\<close> block has run (\<open>Inl\<close>); otherwise the handler
  is suspended with its upload id in the slot map (\<open>Inr\<close>). \<open>detect_resume\<close> is the rest,
  ending with the \<^verbatim>\<open>finally\<close> block that deletes the upload id.
\<close>

definition detect_entry ::
  "config \<Rightarrow> request \<Rightarrow> world \<Rightarrow> server \<Rightarrow>
   (response \<times> server \<times> event list) + (upload_file \<times> server \<times> event list)" where
  "detect_entry cfg req w s =
     (if length (activeUploads s) \<ge> MAX_CONCURRENT_UPLOADS
      then Inl (Capacity_error,
                s\<lparr>activeUploads := AList.delete (uploadId w) (activeUploads s)\<rparr>,
                [SlotDelete (uploadId w)])
      else
        (case detect_checks cfg req w
                (s\<lparr>activeUploads := AList.update (uploadId w) True (activeUploads s)\<rparr>) of
           Inl (resp, s1, tr) \<Rightarrow>
             Inl (resp, s1\<lparr>activeUploads := AList.delete (uploadId w) (activeUploads s1)\<rparr>,
                  SlotSet (uploadId w) # tr @ [SlotDelete (uploadId w)])
         | Inr (file, s1, tr) \<Rightarrow> Inr (file, s1, SlotSet (uploadId w) # tr)))"

definition detect_resume ::
  "config \<Rightarrow> request \<Rightarrow> upload_file \<Rightarrow> world \<Rightarrow> server \<Rightarrow> response \<times> server \<times> event list" where
  "detect_resume cfg req file w s =
     (case detect_pipeline cfg req file w s of
        (resp, s2, tr) \<Rightarrow>
          (resp, s2\<lparr>activeUploads := AList.delete (uploadId w) (activeUploads s2)\<rparr>,
           tr @ [SlotDelete (uploadId w)]))"

text \<open>
  One request run without any other request in between: \<open>detect_admitted\<close> is what runs
  while the upload id is in the slot map, \<open>detect\<close> the whole handler.
\<close>

definition detect_admitted ::
  "config \<Rightarrow> request \<Rightarrow> world \<Rightarrow> server \<Rightarrow> response \<times> server \<times> event list" where
  "detect_admitted cfg req w s =
     (case detect_checks cfg req w s of
        Inl answered \<Rightarrow> answered
      | Inr (file, s1, tr) \<Rightarrow>
          (case detect_pipeline cfg req file w s1 of
             (resp, s2, tr2) \<Rightarrow> (resp, s2, tr @ tr2)))"

definition detect :: "config \<Rightarrow> request \<Rightarrow> world \<Rightarrow> server \<Rightarrow> response \<times> server \<times> event list" where
  "detect cfg req w s =
     (case detect_entry cfg req w s of
        Inl answered \<Rightarrow> answered
      | Inr (file, s1, tr) \<Rightarrow>
          (case detect_resume cfg req file w s1 of
             (resp, s2, tr2) \<Rightarrow> (resp, s2, tr @ tr2)))"

text \<open>
  The server under overlapping requests: each step is the arrival of a request or the
  resumption of a suspended one, run to completion on the state left by the steps before.
\<close>

datatype handler_step =
  Arrival config request world
  | Resumption config request upload_file world

definition state_after_entry ::
  "(response \<times> server \<times> event list) + (upload_file \<times> server \<times> event list) \<Rightarrow> server" where
  "state_after_entry r = (case r of Inl (resp, s1, tr) \<Rightarrow> s1 | Inr (file, s1, tr) \<Rightarrow> s1)"

fun server_step :: "server \<Rightarrow> handler_step \<Rightarrow> server" where
  "server_step s (Arrival cfg req w) = state_after_entry (detect_entry cfg req w s)"
| "server_step s (Resumption cfg req file w) = fst (snd (detect_resume cfg req file w s))"

definition server_run :: "handler_step list \<Rightarrow> server \<Rightarrow> server" where
  "server_run steps s = foldl server_step s steps"

text \<open>The statements on the slot map in a history.\<close>

definition slot_events :: "event list \<Rightarrow> event list" where
  "slot_events tr =
     filter (\<lambda>e. case e of SlotSet u \<Rightarrow> True | SlotDelete u \<Rightarrow> True | _ \<Rightarrow> False) tr"


section \<open>The decision sequence in the words of the specification\<close>

text \<open>
  The verdicts of the specified decision sequence, the arg-max with ties going to the first
  occurrence, the negative-class test and the ordered checks, written from the
  specification's text to be compared with \<open>detect_decide\<close>. \<open>verdict_of\<close> reads the
  verdict off an answer of the handler.
\<close>

datatype verdict =
  NoPrimaryPrediction | NegativeClassDetected | LowPrimaryConfidence
  | NoSecondaryPrediction | LowSecondaryConfidence | Accepted

definition spec_arg_max :: "prediction list \<Rightarrow> prediction option" where
  "spec_arg_max preds = find (\<lambda>p. \<forall>q \<in> set preds. p_confidence q \<le> p_confidence p) preds"

definition spec_negative_spellings :: "string list" where
  "spec_negative_spellings = [''not calamansi'', ''not-calamansi'', ''not_calamansi'']"

definition spec_negative_class :: "string \<Rightarrow> bool" where
  "spec_negative_class label =
     (includes_str (toLowerCase label) ''not'' \<or> toLowerCase label \<in> set spec_negative_spellings)"

definition spec_decision :: "real \<Rightarrow> real \<Rightarrow> prediction list \<Rightarrow> prediction list \<Rightarrow> verdict" where
  "spec_decision primaryThreshold secondaryThreshold primary secondary =
     (if primary = [] then NoPrimaryPrediction
      else (case spec_arg_max primary of
              None \<Rightarrow> NoPrimaryPrediction
            | Some top1 \<Rightarrow>
                if spec_negative_class (p_class top1) \<and> p_confidence top1 > 0.70
                then NegativeClassDetected
                else if \<not> spec_negative_class (p_class top1)
                        \<and> p_confidence top1 < primaryThreshold
                then LowPrimaryConfidence
                else if secondary = [] then NoSecondaryPrediction
                else (case spec_arg_max secondary of
                        None \<Rightarrow> NoSecondaryPrediction
                      | Some top2 \<Rightarrow>
                          if p_confidence top2 < secondaryThreshold then LowSecondaryConfidence
                          else Accepted)))"

definition verdict_of :: "response \<Rightarrow> verdict option" where
  "verdict_of resp =
     (case resp of
        No_predictions_model1 \<Rightarrow> Some NoPrimaryPrediction
      | Not_calamansi v \<Rightarrow> Some NegativeClassDetected
      | Low_confidence v \<Rightarrow> Some LowPrimaryConfidence
      | No_disease_signs \<Rightarrow> Some NoSecondaryPrediction
      | Low_disease_confidence v \<Rightarrow> Some LowSecondaryConfidence
      | Detected rd \<Rightarrow> Some Accepted
      | _ \<Rightarrow> None)"

text \<open>\<open>r\<close> is \<open>v\<close> rounded to two decimal places: a multiple of 0.01 at most 0.005 away.\<close>

definition rounded2 :: "real \<Rightarrow> real \<Rightarrow> bool" where
  "rounded2 v r = (r * 100 = of_int \<lfloor>r * 100\<rfloor> \<and> \<bar>r - v\<bar> \<le> 1 / 200)"

text \<open>The top 5 entries by confidence, ties in original order (the sort is stable).\<close>

definition spec_top_candidates :: "prediction list \<Rightarrow> prediction list" where
  "spec_top_candidates preds = take 5 (sort_key (\<lambda>p. - p_confidence p) preds)"

section \<open>Example inputs\<close>

definition ex_config :: config where
  "ex_config =
     \<lparr>ROBOFLOW_API_KEY = Some ''k1'', MODEL_1_URL = Some ''https://m1'',
      MODEL_2_URL = Some ''https://m2'', MODEL_1_THRESHOLD = None, MODEL_2_THRESHOLD = None,
      DAILY_API_LIMIT_env = None\<rparr>"

definition ex_request :: request where
  "ex_request =
     \<lparr>req_ip = ''10.0.0.1'', req_user_agent = None,
      req_file = Some \<lparr>originalname = ''a.jpg'', mimetype = ''image/jpeg'', buffer = ''ab''\<rparr>,
      req_body_valid = True\<rparr>"

definition ex_pred :: "string \<Rightarrow> real \<Rightarrow> prediction" where
  "ex_pred c v = \<lparr>p_class = c, p_confidence = v, p_x = 1, p_y = 2, p_width = 3, p_height = 4\<rparr>"

definition ex_ok :: "prediction list \<Rightarrow> upstream" where
  "ex_ok ps =
     HttpResponse
       \<lparr>resp_status = 200,
        resp_data = \<lparr>predictions = Some ps, image_width = 640, image_height = 480\<rparr>,
        resp_json = ''{}''\<rparr>"

definition ex_status :: "nat \<Rightarrow> upstream" where
  "ex_status n =
     HttpResponse
       \<lparr>resp_status = n,
        resp_data = \<lparr>predictions = None, image_width = 0, image_height = 0\<rparr>,
        resp_json = ''{}''\<rparr>"

definition ex_data :: "prediction list \<Rightarrow> api_data" where
  "ex_data ps = \<lparr>predictions = Some ps, image_width = 640, image_height = 480\<rparr>"

definition ex_file :: upload_file where
  "ex_file = \<lparr>originalname = ''a.jpg'', mimetype = ''image/jpeg'', buffer = ''ab''\<rparr>"

definition ex_world :: "upstream \<Rightarrow> upstream \<Rightarrow> world" where
  "ex_world u1 u2 =
     \<lparr>uploadId = ''1000-abc'', startTime = 1000, ledger_faults = no_faults,
      base64Image = ''YWI='', callTime = 1010, upstream1 = u1, upstream2 = u2,
      doneTime1 = 1100, doneTime2 = 1200, first_settled1 = True, endTime = 1210\<rparr>"

definition ex_circuit :: circuit where
  "ex_circuit = \<lparr>apiFailureCount = 0, circuitOpen = False, lastFailureTime = 0\<rparr>"

definition ex_database :: database where
  "ex_database = \<lparr>detections = [], api_calls = Map.empty, rate_limits = Map.empty\<rparr>"

definition ex_row :: "string \<Rightarrow> int \<Rightarrow> bool \<Rightarrow> detection_row" where
  "ex_row ip t ok =
     \<lparr>d_ip = ip, d_timestamp = t, d_disease = None, d_confidence = None,
      d_processing_time = Some 12, d_success = ok, d_error_message = None,
      d_user_agent = None\<rparr>"

definition ex_full_uploads :: "(string \<times> bool) list" where
  "ex_full_uploads =
     [(''u0'', True), (''u1'', True), (''u2'', True), (''u3'', True), (''u4'', True),
      (''u5'', True), (''u6'', True), (''u7'', True), (''u8'', True), (''u9'', True)]"

definition ex_server :: server where
  "ex_server = \<lparr>activeUploads = [], breaker = ex_circuit, ledger = ex_database\<rparr>"

section \<open>Unfolding the handler for evaluation\<close>

lemma detect_admitted_unfold:
  "detect_admitted cfg req w s =
     (let F = ledger_faults w; apiUsage = getAPIUsageToday F (startTime w) (ledger s)
      in if total_calls apiUsage \<ge> DAILY_API_LIMIT cfg then (Api_limit_error, s, [UsageRead])
         else
           (case checkRateLimit F (startTime w) (req_ip req) 60 20 (ledger s) of
              (rateLimitCheck, db1) \<Rightarrow>
                if \<not> allowed rateLimitCheck
                then (Rate_limit_error (reason rateLimitCheck),
                      s\<lparr>ledger := logDetection F (startTime w) (req_ip req) None None None False
                                     (reason rateLimitCheck) (req_user_agent req) db1\<rparr>,
                      [UsageRead])
                else
                  (case req_file req of
                     None \<Rightarrow> (No_image_file, s\<lparr>ledger := db1\<rparr>, [UsageRead])
                   | Some file \<Rightarrow>
                       if \<not> req_body_valid req
                       then (Invalid_parameters, s\<lparr>ledger := db1\<rparr>, [UsageRead])
                       else if \<not> truthy (MODEL_1_URL cfg) \<or> \<not> truthy (MODEL_2_URL cfg)
                       then (Service_unavailable, s\<lparr>ledger := db1\<rparr>, [UsageRead])
                       else
                         (case fanout cfg w (breaker s) of
                            (Inl error, c, sent) \<Rightarrow>
                              (Server_error (sanitizeError error),
                               s\<lparr>breaker := c,
                                 ledger := logDetection F (endTime w) (req_ip req) None None
                                             (Some (endTime w - startTime w)) False
                                             (Some (err_message error)) (req_user_agent req) db1\<rparr>,
                               UsageRead # map UpstreamPost sent)
                          | (Inr (model1Data, model2Data), c, sent) \<Rightarrow>
                              (case detect_decide cfg req file w model1Data model2Data db1 of
                                 (resp, db2) \<Rightarrow>
                                   (resp, s\<lparr>breaker := c, ledger := db2\<rparr>,
                                    UsageRead # map UpstreamPost sent))))))"
  by (simp add: detect_admitted_def detect_checks_def detect_pipeline_def Let_def
      split: prod.splits option.splits sum.splits)

lemma detect_unfold:
  "detect cfg req w s =
     (case (if length (activeUploads s) \<ge> MAX_CONCURRENT_UPLOADS
            then (Capacity_error, s, [])
            else (case detect_admitted cfg req w
                         (s\<lparr>activeUploads := AList.update (uploadId w) True (activeUploads s)\<rparr>) of
                    (resp, s1, tr) \<Rightarrow> (resp, s1, SlotSet (uploadId w) # tr))) of
        (resp, s2, tr) \<Rightarrow>
          (resp, s2\<lparr>activeUploads := AList.delete (uploadId w) (activeUploads s2)\<rparr>,
           tr @ [SlotDelete (uploadId w)]))"
proof (cases "length (activeUploads s) \<ge> MAX_CONCURRENT_UPLOADS")
  case True
  then show ?thesis
    by (simp add: detect_def detect_entry_def)
next
  case False
  let ?s = "s\<lparr>activeUploads := AList.update (uploadId w) True (activeUploads s)\<rparr>"
  show ?thesis
  proof (cases "detect_checks cfg req w ?s")
    case (Inl a)
    then show ?thesis
      using False
      by (cases a) (simp add: detect_def detect_entry_def detect_admitted_def)
  next
    case (Inr b)
    then show ?thesis
      using False
      by (cases b)
        (simp add: detect_def detect_entry_def detect_admitted_def detect_resume_def
          split: prod.splits)
  qed
qed

lemmas handler_defs =
  detect_unfold detect_admitted_unfold detect_decide_def fanout_def settle_call_def join_all_def
  sent_to_def callRoboflowAPI_enter_def callRoboflowAPI_await_def axios_post_def
  validateStatus_def catch_block_def rethrown_def Error_def sanitizeError_def safeErrors_def
  getAPIUsageToday_def checkRateLimit_def getRecentDetections_def updateRateLimit_def
  blockIP_def logDetection_def insertDetection_def incrementAPICalls_def today_def
  DAILY_API_LIMIT_def threshold_or_default_def MAX_CONCURRENT_UPLOADS_def truthy_def
  top_of_def to_candidate_def toFixed2_def predictions_or_empty_def toLowerCase_def
  lower_char_def no_faults_def Let_def

section \<open>Properties of the ledger\<close>

lemma getRecentDetections_logDetection_failed:
  "getRecentDetections (logDetection F t ip' disease conf pt False err ua db) ip cutoff
     = getRecentDetections db ip cutoff"
  by (simp add: getRecentDetections_def logDetection_def insertDetection_def Let_def)

lemma rate_limits_logDetection_failed:
  "rate_limits (logDetection F t ip' disease conf pt False err ua db) = rate_limits db"
  by (simp add: logDetection_def insertDetection_def Let_def)

lemma rate_limits_updateRateLimit_same:
  "rate_limits (updateRateLimit ip a b db) ip =
     Some (case rate_limits db ip of
             None \<Rightarrow> \<lparr>request_count = 1, first_request = a, last_request = b, blocked = False\<rparr>
           | Some r \<Rightarrow> r\<lparr>request_count := request_count r + 1, last_request := b\<rparr>)"
  by (simp add: updateRateLimit_def split: option.splits)

lemma blocked_after_updateRateLimit:
  "(case rate_limits (updateRateLimit ip a b db) ip of None \<Rightarrow> False | Some r \<Rightarrow> blocked r)
     = (case rate_limits db ip of None \<Rightarrow> False | Some r \<Rightarrow> blocked r)"
  by (simp add: updateRateLimit_def split: option.splits)

lemma rate_limits_updateRateLimit_logDetection_failed:
  "rate_limits (updateRateLimit ip a b (logDetection F t ip' disease conf pt False err ua db))
     = rate_limits (updateRateLimit ip a b db)"
  by (simp add: updateRateLimit_def rate_limits_logDetection_failed split: option.splits)

text \<open>
  C10. The window count of \<open>checkRateLimit\<close> is the number of rows of the source with
  \<open>success = 1\<close> after the cutoff. Logging a rejected or failed attempt changes neither the
  count nor the verdict of the check, and a source whose rows are all failures and that is
  not blocked is allowed and stays unblocked, whatever the number of such rows.
\<close>

theorem failed_attempts_not_counted:
  "getRecentDetections (logDetection F' t ip' disease conf pt False err ua db) ip cutoff
     = getRecentDetections db ip cutoff
   \<and> fst (checkRateLimit F now ip windowMinutes maxRequests
            (logDetection F' t ip' disease conf pt False err ua db))
     = fst (checkRateLimit F now ip windowMinutes maxRequests db)
   \<and> ((\<forall>r \<in> set (detections db). d_ip r = ip \<longrightarrow> \<not> d_success r)
        \<and> (\<forall>r. rate_limits db ip = Some r \<longrightarrow> \<not> blocked r) \<and> 0 < maxRequests
      \<longrightarrow> allowed (fst (checkRateLimit F now ip windowMinutes maxRequests db))
          \<and> (\<forall>r. rate_limits (snd (checkRateLimit F now ip windowMinutes maxRequests db)) ip = Some r
                 \<longrightarrow> \<not> blocked r))"
proof (intro conjI impI)
  show "getRecentDetections (logDetection F' t ip' disease conf pt False err ua db) ip cutoff
     = getRecentDetections db ip cutoff"
    by (rule getRecentDetections_logDetection_failed)
next
  show "fst (checkRateLimit F now ip windowMinutes maxRequests
            (logDetection F' t ip' disease conf pt False err ua db))
     = fst (checkRateLimit F now ip windowMinutes maxRequests db)"
    by (simp add: checkRateLimit_def Let_def getRecentDetections_logDetection_failed
        rate_limits_updateRateLimit_logDetection_failed)
next
  assume h: "(\<forall>r \<in> set (detections db). d_ip r = ip \<longrightarrow> \<not> d_success r)
        \<and> (\<forall>r. rate_limits db ip = Some r \<longrightarrow> \<not> blocked r) \<and> 0 < maxRequests"
  have "filter (\<lambda>r. d_ip r = ip \<and> d_timestamp r > c \<and> d_success r) (detections db) = []" for c
    using h by (auto simp: filter_empty_conv)
  then have cnt: "getRecentDetections db ip c = 0" for c
    by (simp add: getRecentDetections_def)
  have nb: "\<not> (case rate_limits db ip of None \<Rightarrow> False | Some r \<Rightarrow> blocked r)"
    using h by (auto split: option.splits)
  show "allowed (fst (checkRateLimit F now ip windowMinutes maxRequests db))"
    using h nb by (simp add: checkRateLimit_def Let_def cnt blocked_after_updateRateLimit)
  show "\<forall>r. rate_limits (snd (checkRateLimit F now ip windowMinutes maxRequests db)) ip = Some r
                 \<longrightarrow> \<not> blocked r"
    using h nb
    by (auto simp: checkRateLimit_def Let_def cnt blocked_after_updateRateLimit
        rate_limits_updateRateLimit_same split: option.splits)
qed

theorem failed_attempts_not_counted_witness:
  "allowed (fst (checkRateLimit no_faults 5000 ''10.0.0.1'' 60 1
     (ex_database\<lparr>detections :=
        [ex_row ''10.0.0.1'' 4000 False, ex_row ''10.0.0.1'' 4500 False]\<rparr>)))"
  using failed_attempts_not_counted
    [where F = no_faults and now = 5000 and ip = "''10.0.0.1''" and windowMinutes = 60
       and maxRequests = 1
       and db = "ex_database\<lparr>detections :=
        [ex_row ''10.0.0.1'' 4000 False, ex_row ''10.0.0.1'' 4500 False]\<rparr>"]
  by (simp add: ex_database_def ex_row_def)

lemma getRecentDetections_nonneg: "0 \<le> getRecentDetections db ip cutoff"
  by (simp add: getRecentDetections_def)

lemma blocked_after_blockIP:
  "rate_limits db ip = Some r \<Longrightarrow> rate_limits (blockIP ip db) ip = Some (r\<lparr>blocked := True\<rparr>)"
  by (simp add: blockIP_def)

lemma detect_decide_not_rate_limit:
  "fst (detect_decide cfg req f w d1 d2 db) \<noteq> Rate_limit_error r"
  by (simp add: detect_decide_def Let_def split: list.splits)

lemma detect_decide_not_rate_limitD:
  "detect_decide cfg req f w d1 d2 db = (Rate_limit_error r, db') \<Longrightarrow> False"
  using detect_decide_not_rate_limit [of cfg req f w d1 d2 db r] by simp

lemma checkRateLimit_fail_open:
  assumes "F GetRecentDetections \<or> F UpdateRateLimit \<or> F GetRateLimit"
  shows "fst (checkRateLimit F now ip windowMinutes maxRequests db)
           = \<lparr>allowed = True, reason = None, count = None, remaining = None\<rparr>"
  using assms by (auto simp: checkRateLimit_def Let_def)

lemma detect_admitted_allowed_not_rate_limit:
  assumes "allowed (fst (checkRateLimit (ledger_faults w) (startTime w) (req_ip req) 60 20 (ledger s)))"
  shows "fst (detect_admitted cfg req w s) \<noteq> Rate_limit_error r"
  using assms
  by (auto simp: detect_admitted_unfold Let_def
      split: prod.splits option.splits sum.splits dest: detect_decide_not_rate_limitD)

lemma detect_allowed_not_rate_limit:
  assumes "allowed (fst (checkRateLimit (ledger_faults w) (startTime w) (req_ip req) 60 20 (ledger s)))"
  shows "fst (detect cfg req w s) \<noteq> Rate_limit_error r"
proof -
  have "fst (detect_admitted cfg req w
               (s\<lparr>activeUploads := AList.update (uploadId w) True (activeUploads s)\<rparr>))
          \<noteq> Rate_limit_error r"
    by (rule detect_admitted_allowed_not_rate_limit) (simp add: assms)
  then show ?thesis
    by (auto simp: detect_unfold split: prod.splits)
qed

lemma detect_checks_allowed:
  assumes "allowed (fst (checkRateLimit (ledger_faults w) (startTime w) (req_ip req) 60 20 (ledger s)))"
    and "\<not> total_calls (getAPIUsageToday (ledger_faults w) (startTime w) (ledger s))
             \<ge> DAILY_API_LIMIT cfg"
  shows "detect_checks cfg req w s
           = (case req_file req of
                None \<Rightarrow>
                  Inl (No_image_file,
                       s\<lparr>ledger := snd (checkRateLimit (ledger_faults w) (startTime w) (req_ip req)
                                          60 20 (ledger s))\<rparr>, [UsageRead])
              | Some fl \<Rightarrow>
                  if \<not> req_body_valid req
                  then Inl (Invalid_parameters,
                            s\<lparr>ledger := snd (checkRateLimit (ledger_faults w) (startTime w)
                                               (req_ip req) 60 20 (ledger s))\<rparr>, [UsageRead])
                  else Inr (fl,
                            s\<lparr>ledger := snd (checkRateLimit (ledger_faults w) (startTime w)
                                               (req_ip req) 60 20 (ledger s))\<rparr>, [UsageRead]))"
  using assms
  by (auto simp: detect_checks_def Let_def split: prod.splits option.splits)

lemma detect_proceeds_when_allowed:
  assumes "allowed (fst (checkRateLimit (ledger_faults w) (startTime w) (req_ip req) 60 20 (ledger s)))"
    and "\<not> total_calls (getAPIUsageToday (ledger_faults w) (startTime w) (ledger s))
             \<ge> DAILY_API_LIMIT cfg"
    and "length (activeUploads s) < MAX_CONCURRENT_UPLOADS"
  shows "fst (detect cfg req w s)
           = (case req_file req of
                None \<Rightarrow> No_image_file
              | Some fl \<Rightarrow>
                  if \<not> req_body_valid req then Invalid_parameters
                  else fst (detect_pipeline cfg req fl w
                         (s\<lparr>activeUploads := AList.update (uploadId w) True (activeUploads s),
                            ledger := snd (checkRateLimit (ledger_faults w) (startTime w)
                                             (req_ip req) 60 20 (ledger s))\<rparr>)))"
proof -
  let ?s = "s\<lparr>activeUploads := AList.update (uploadId w) True (activeUploads s)\<rparr>"
  have c: "detect_checks cfg req w ?s
           = (case req_file req of
                None \<Rightarrow>
                  Inl (No_image_file,
                       ?s\<lparr>ledger := snd (checkRateLimit (ledger_faults w) (startTime w) (req_ip req)
                                          60 20 (ledger ?s))\<rparr>, [UsageRead])
              | Some fl \<Rightarrow>
                  if \<not> req_body_valid req
                  then Inl (Invalid_parameters,
                            ?s\<lparr>ledger := snd (checkRateLimit (ledger_faults w) (startTime w)
                                               (req_ip req) 60 20 (ledger ?s))\<rparr>, [UsageRead])
                  else Inr (fl,
                            ?s\<lparr>ledger := snd (checkRateLimit (ledger_faults w) (startTime w)
                                               (req_ip req) 60 20 (ledger ?s))\<rparr>, [UsageRead]))"
    by (rule detect_checks_allowed) (use assms in simp_all)
  show ?thesis
    using assms(3)
    by (simp add: detect_def detect_entry_def detect_resume_def c
        split: option.splits prod.splits)
qed

text \<open>
  C8. With no statement failing, a window count of at least twice \<open>maxRequests\<close> makes
  \<open>checkRateLimit\<close> answer not-allowed and leaves the source's row blocked; a blocked row
  makes every later check answer not-allowed and stay blocked. When a statement the check
  runs throws, the answer is \<open>allowed = true\<close>, and the handler then never answers with
  the rate-limit rejection: a request admitted below the ceiling and within the daily
  budget goes on to the file check and the validation and, past these, is answered by the
  pipeline of upstream calls and decision, exactly as after a check that allowed it.
\<close>

theorem checkRateLimit_escalates_and_fails_open:
  "(\<not> F GetRecentDetections \<and> \<not> F UpdateRateLimit \<and> \<not> F GetRateLimit \<and> \<not> F BlockIP
      \<and> getRecentDetections db ip (now - windowMinutes * 60 * 1000) \<ge> maxRequests * 2
     \<longrightarrow> \<not> allowed (fst (checkRateLimit F now ip windowMinutes maxRequests db))
         \<and> (\<exists>r. rate_limits (snd (checkRateLimit F now ip windowMinutes maxRequests db)) ip = Some r
                \<and> blocked r))
   \<and> (\<not> F GetRecentDetections \<and> \<not> F UpdateRateLimit \<and> \<not> F GetRateLimit
      \<and> (\<exists>r. rate_limits db ip = Some r \<and> blocked r)
     \<longrightarrow> \<not> allowed (fst (checkRateLimit F now ip windowMinutes maxRequests db))
         \<and> (\<exists>r. rate_limits (snd (checkRateLimit F now ip windowMinutes maxRequests db)) ip = Some r
                \<and> blocked r))
   \<and> (F GetRecentDetections \<or> F UpdateRateLimit \<or> F GetRateLimit
      \<or> (F BlockIP \<and> getRecentDetections db ip (now - windowMinutes * 60 * 1000) \<ge> maxRequests * 2
          \<and> (\<forall>r. rate_limits db ip = Some r \<longrightarrow> \<not> blocked r))
     \<longrightarrow> fst (checkRateLimit F now ip windowMinutes maxRequests db)
           = \<lparr>allowed = True, reason = None, count = None, remaining = None\<rparr>)
   \<and> (ledger_faults w GetRecentDetections \<or> ledger_faults w UpdateRateLimit
      \<or> ledger_faults w GetRateLimit
     \<longrightarrow> (\<forall>r. fst (detect cfg req w s) \<noteq> Rate_limit_error r))
   \<and> ((ledger_faults w GetRecentDetections \<or> ledger_faults w UpdateRateLimit
       \<or> ledger_faults w GetRateLimit)
      \<and> length (activeUploads s) < MAX_CONCURRENT_UPLOADS
      \<and> \<not> total_calls (getAPIUsageToday (ledger_faults w) (startTime w) (ledger s))
            \<ge> DAILY_API_LIMIT cfg
     \<longrightarrow> fst (detect cfg req w s)
           = (case req_file req of
                None \<Rightarrow> No_image_file
              | Some fl \<Rightarrow>
                  if \<not> req_body_valid req then Invalid_parameters
                  else fst (detect_pipeline cfg req fl w
                         (s\<lparr>activeUploads := AList.update (uploadId w) True (activeUploads s),
                            ledger := snd (checkRateLimit (ledger_faults w) (startTime w)
                                             (req_ip req) 60 20 (ledger s))\<rparr>))))"
proof (intro conjI impI)
  let ?c = "getRecentDetections db ip (now - windowMinutes * 60 * 1000)"
  let ?res = "checkRateLimit F now ip windowMinutes maxRequests db"
  have upd: "\<exists>r. rate_limits (updateRateLimit ip now now db) ip = Some r"
    by (simp add: rate_limits_updateRateLimit_same)
  {
    assume h: "\<not> F GetRecentDetections \<and> \<not> F UpdateRateLimit \<and> \<not> F GetRateLimit \<and> \<not> F BlockIP
      \<and> ?c \<ge> maxRequests * 2"
    have ge: "?c \<ge> maxRequests"
      using h getRecentDetections_nonneg [of db ip "now - windowMinutes * 60 * 1000"] by arith
    show "\<not> allowed (fst ?res)"
      using h ge by (simp add: checkRateLimit_def Let_def)
    show "\<exists>r. rate_limits (snd ?res) ip = Some r \<and> blocked r"
      using h ge upd
      by (auto simp: checkRateLimit_def Let_def blocked_after_blockIP split: option.splits)
  }
  {
    assume h: "\<not> F GetRecentDetections \<and> \<not> F UpdateRateLimit \<and> \<not> F GetRateLimit
      \<and> (\<exists>r. rate_limits db ip = Some r \<and> blocked r)"
    then have b: "case rate_limits (updateRateLimit ip now now db) ip of
                    None \<Rightarrow> False | Some r \<Rightarrow> blocked r"
      by (auto simp: blocked_after_updateRateLimit)
    show "\<not> allowed (fst ?res)"
      using h b by (simp add: checkRateLimit_def Let_def)
    show "\<exists>r. rate_limits (snd ?res) ip = Some r \<and> blocked r"
      using h b by (auto simp: checkRateLimit_def Let_def split: option.splits)
  }
  {
    assume h: "F GetRecentDetections \<or> F UpdateRateLimit \<or> F GetRateLimit
      \<or> (F BlockIP \<and> ?c \<ge> maxRequests * 2
          \<and> (\<forall>r. rate_limits db ip = Some r \<longrightarrow> \<not> blocked r))"
    show "fst ?res = \<lparr>allowed = True, reason = None, count = None, remaining = None\<rparr>"
    proof (cases "F GetRecentDetections \<or> F UpdateRateLimit \<or> F GetRateLimit")
      case True
      then show ?thesis by (rule checkRateLimit_fail_open)
    next
      case False
      with h have k: "F BlockIP" "?c \<ge> maxRequests * 2"
        "\<forall>r. rate_limits db ip = Some r \<longrightarrow> \<not> blocked r" by auto
      have ge: "?c \<ge> maxRequests"
        using k getRecentDetections_nonneg [of db ip "now - windowMinutes * 60 * 1000"] by arith
      have nb: "\<not> (case rate_limits (updateRateLimit ip now now db) ip of
                    None \<Rightarrow> False | Some r \<Rightarrow> blocked r)"
        using k by (auto simp: blocked_after_updateRateLimit split: option.splits)
      show ?thesis
        using False k ge nb by (simp add: checkRateLimit_def Let_def)
    qed
  }
  {
    assume h: "ledger_faults w GetRecentDetections \<or> ledger_faults w UpdateRateLimit
      \<or> ledger_faults w GetRateLimit"
    have "allowed (fst (checkRateLimit (ledger_faults w) (startTime w) (req_ip req) 60 20 (ledger s)))"
      by (simp add: checkRateLimit_fail_open [OF h])
    then show "\<forall>r. fst (detect cfg req w s) \<noteq> Rate_limit_error r"
      by (simp add: detect_allowed_not_rate_limit)
  }
  {
    assume h: "(ledger_faults w GetRecentDetections \<or> ledger_faults w UpdateRateLimit
       \<or> ledger_faults w GetRateLimit)
      \<and> length (activeUploads s) < MAX_CONCURRENT_UPLOADS
      \<and> \<not> total_calls (getAPIUsageToday (ledger_faults w) (startTime w) (ledger s))
            \<ge> DAILY_API_LIMIT cfg"
    then have f: "ledger_faults w GetRecentDetections \<or> ledger_faults w UpdateRateLimit
       \<or> ledger_faults w GetRateLimit" by simp
    have a: "allowed (fst (checkRateLimit (ledger_faults w) (startTime w) (req_ip req) 60 20
                             (ledger s)))"
      by (simp add: checkRateLimit_fail_open [OF f])
    show "fst (detect cfg req w s)
           = (case req_file req of
                None \<Rightarrow> No_image_file
              | Some fl \<Rightarrow>
                  if \<not> req_body_valid req then Invalid_parameters
                  else fst (detect_pipeline cfg req fl w
                         (s\<lparr>activeUploads := AList.update (uploadId w) True (activeUploads s),
                            ledger := snd (checkRateLimit (ledger_faults w) (startTime w)
                                             (req_ip req) 60 20 (ledger s))\<rparr>)))"
      using a h by (simp add: detect_proceeds_when_allowed)
  }
qed

theorem checkRateLimit_escalates_and_fails_open_witness:
  "\<not> allowed (fst (checkRateLimit no_faults 5000 ''10.0.0.1'' 60 1
       (ex_database\<lparr>detections :=
          [ex_row ''10.0.0.1'' 4000 True, ex_row ''10.0.0.1'' 4500 True]\<rparr>)))
   \<and> (\<exists>r. rate_limits (snd (checkRateLimit no_faults 5000 ''10.0.0.1'' 60 1
       (ex_database\<lparr>detections :=
          [ex_row ''10.0.0.1'' 4000 True, ex_row ''10.0.0.1'' 4500 True]\<rparr>))) ''10.0.0.1'' = Some r
        \<and> blocked r)
   \<and> fst (checkRateLimit (\<lambda>st. st = BlockIP) 5000 ''10.0.0.1'' 60 1
       (ex_database\<lparr>detections :=
          [ex_row ''10.0.0.1'' 4000 True, ex_row ''10.0.0.1'' 4500 True]\<rparr>))
       = \<lparr>allowed = True, reason = None, count = None, remaining = None\<rparr>
   \<and> verdict_of (fst (detect ex_config ex_request
         ((ex_world (ex_ok [ex_pred ''Calamansi'' 0.9]) (ex_ok [ex_pred ''leaf_spot'' 0.75]))
            \<lparr>ledger_faults := (\<lambda>st. st = GetRecentDetections)\<rparr>) ex_server))
       = Some Accepted"
proof -
  have a: "\<not> allowed (fst (checkRateLimit no_faults 5000 ''10.0.0.1'' 60 1
       (ex_database\<lparr>detections :=
          [ex_row ''10.0.0.1'' 4000 True, ex_row ''10.0.0.1'' 4500 True]\<rparr>)))
   \<and> (\<exists>r. rate_limits (snd (checkRateLimit no_faults 5000 ''10.0.0.1'' 60 1
       (ex_database\<lparr>detections :=
          [ex_row ''10.0.0.1'' 4000 True, ex_row ''10.0.0.1'' 4500 True]\<rparr>))) ''10.0.0.1'' = Some r
        \<and> blocked r)
   \<and> fst (checkRateLimit (\<lambda>st. st = BlockIP) 5000 ''10.0.0.1'' 60 1
       (ex_database\<lparr>detections :=
          [ex_row ''10.0.0.1'' 4000 True, ex_row ''10.0.0.1'' 4500 True]\<rparr>))
       = \<lparr>allowed = True, reason = None, count = None, remaining = None\<rparr>"
    using checkRateLimit_escalates_and_fails_open
      [where F = no_faults and now = 5000 and ip = "''10.0.0.1''" and windowMinutes = 60
         and maxRequests = 1 and db = "(ex_database\<lparr>detections :=
          [ex_row ''10.0.0.1'' 4000 True, ex_row ''10.0.0.1'' 4500 True]\<rparr>)"]
      checkRateLimit_escalates_and_fails_open
      [where F = "\<lambda>st. st = BlockIP" and now = 5000 and ip = "''10.0.0.1''"
         and windowMinutes = 60 and maxRequests = 1 and db = "(ex_database\<lparr>detections :=
          [ex_row ''10.0.0.1'' 4000 True, ex_row ''10.0.0.1'' 4500 True]\<rparr>)"]
    by (simp add: no_faults_def getRecentDetections_def ex_database_def ex_row_def)
  have e: "fst (detect ex_config ex_request
         ((ex_world (ex_ok [ex_pred ''Calamansi'' 0.9]) (ex_ok [ex_pred ''leaf_spot'' 0.75]))
            \<lparr>ledger_faults := (\<lambda>st. st = GetRecentDetections)\<rparr>) ex_server)
       = fst (detect_pipeline ex_config ex_request ex_file
           ((ex_world (ex_ok [ex_pred ''Calamansi'' 0.9]) (ex_ok [ex_pred ''leaf_spot'' 0.75]))
            \<lparr>ledger_faults := (\<lambda>st. st = GetRecentDetections)\<rparr>)
           (ex_server\<lparr>activeUploads := [(''1000-abc'', True)]\<rparr>))"
    using checkRateLimit_escalates_and_fails_open
      [where w = "((ex_world (ex_ok [ex_pred ''Calamansi'' 0.9]) (ex_ok [ex_pred ''leaf_spot'' 0.75]))
            \<lparr>ledger_faults := (\<lambda>st. st = GetRecentDetections)\<rparr>)"
         and cfg = ex_config and req = ex_request and s = ex_server]
    by (simp add: ex_server_def ex_request_def ex_file_def ex_world_def ex_config_def
        ex_database_def MAX_CONCURRENT_UPLOADS_def DAILY_API_LIMIT_def getAPIUsageToday_def
        checkRateLimit_def)
  have b: "verdict_of (fst (detect ex_config ex_request
         ((ex_world (ex_ok [ex_pred ''Calamansi'' 0.9]) (ex_ok [ex_pred ''leaf_spot'' 0.75]))
            \<lparr>ledger_faults := (\<lambda>st. st = GetRecentDetections)\<rparr>) ex_server))
       = Some Accepted"
    unfolding e
    by (simp add: detect_pipeline_def handler_defs verdict_of_def ex_config_def ex_request_def
        ex_file_def ex_world_def ex_ok_def ex_pred_def ex_server_def ex_circuit_def
        ex_database_def)
  show ?thesis
    using a b by simp
qed

section \<open>Properties of the circuit breaker\<close>

lemma await_fail_state:
  "isl (fst (callRoboflowAPI_await res t c)) \<Longrightarrow>
     snd (callRoboflowAPI_await res t c)
       = \<lparr>apiFailureCount = apiFailureCount c + 1,
          circuitOpen = (circuitOpen c \<or> apiFailureCount c + 1 \<ge> 5),
          lastFailureTime = t\<rparr>"
  by (auto simp: callRoboflowAPI_await_def catch_block_def Let_def
      split: axios_result.splits if_splits)

lemma await_success_state:
  "\<not> isl (fst (callRoboflowAPI_await res t c)) \<Longrightarrow>
     snd (callRoboflowAPI_await res t c) = c\<lparr>apiFailureCount := 0\<rparr>"
  by (auto simp: callRoboflowAPI_await_def catch_block_def Let_def
      split: axios_result.splits if_splits)

lemma settle_all_failures:
  "(\<forall>out \<in> set outs. \<forall>c'. isl (fst (callRoboflowAPI_await (fst out) (snd out) c'))) \<Longrightarrow>
     apiFailureCount (settle_all outs c) = apiFailureCount c + length outs
     \<and> circuitOpen (settle_all outs c)
         = (circuitOpen c \<or> (outs \<noteq> [] \<and> apiFailureCount c + length outs \<ge> 5))"
proof (induction outs arbitrary: c)
  case Nil
  then show ?case by (simp add: settle_all_def)
next
  case (Cons out outs)
  let ?c1 = "snd (callRoboflowAPI_await (fst out) (snd out) c)"
  have f: "isl (fst (callRoboflowAPI_await (fst out) (snd out) c))"
    using Cons.prems by simp
  have st: "apiFailureCount ?c1 = apiFailureCount c + 1"
    "circuitOpen ?c1 = (circuitOpen c \<or> apiFailureCount c + 1 \<ge> 5)"
    by (simp_all add: await_fail_state [OF f])
  have unf: "settle_all (out # outs) c = settle_all outs ?c1"
    by (simp add: settle_all_def)
  have ih: "apiFailureCount (settle_all outs ?c1) = apiFailureCount ?c1 + length outs
     \<and> circuitOpen (settle_all outs ?c1)
         = (circuitOpen ?c1 \<or> (outs \<noteq> [] \<and> apiFailureCount ?c1 + length outs \<ge> 5))"
    using Cons.IH [of ?c1] Cons.prems by simp
  show ?case
    unfolding unf using ih st by auto
qed

lemma settle_all_last_failure:
  "outs \<noteq> [] \<Longrightarrow>
   (\<forall>out \<in> set outs. \<forall>c'. isl (fst (callRoboflowAPI_await (fst out) (snd out) c'))) \<Longrightarrow>
     lastFailureTime (settle_all outs c) = snd (last outs)"
proof (induction outs arbitrary: c)
  case Nil
  then show ?case by simp
next
  case (Cons out outs)
  let ?c1 = "snd (callRoboflowAPI_await (fst out) (snd out) c)"
  have f: "isl (fst (callRoboflowAPI_await (fst out) (snd out) c))"
    using Cons.prems by simp
  have unf: "settle_all (out # outs) c = settle_all outs ?c1"
    by (simp add: settle_all_def)
  show ?case
  proof (cases "outs = []")
    case True
    then show ?thesis
      by (simp add: settle_all_def await_fail_state [OF f])
  next
    case False
    then show ?thesis
      unfolding unf using Cons.IH [of ?c1] Cons.prems by simp
  qed
qed

lemma enter_open_in_cooldown:
  "circuitOpen c \<Longrightarrow> now - lastFailureTime c < 60000 \<Longrightarrow>
     callRoboflowAPI_enter cfg modelUrl now c
       = (Inl (Error ''Service temporarily unavailable - too many failures''), c)"
  by (simp add: callRoboflowAPI_enter_def)

lemma enter_open_after_cooldown:
  "circuitOpen c \<Longrightarrow> \<not> now - lastFailureTime c < 60000 \<Longrightarrow>
   ROBOFLOW_API_KEY cfg = Some k \<Longrightarrow> k \<noteq> [] \<Longrightarrow> u \<noteq> [] \<Longrightarrow>
     callRoboflowAPI_enter cfg (Some u) now c
       = (Inr (u @ ''?api_key='' @ k), c\<lparr>circuitOpen := False, apiFailureCount := 0\<rparr>)"
  by (simp add: callRoboflowAPI_enter_def)

text \<open>
  C4. The breaker is one record for both endpoints. Every request settling as a failure
  adds 1 to the count and records its time as the time of the last failure. Five requests
  settling as failures in a row leave the circuit open, from any state; fewer than five,
  from a closed breaker with count 0, leave it closed. After five such failures a call made
  less than 60000 ms after the last of them throws at once and sends nothing, and a call
  made later closes the breaker, sets the count to 0 and goes on to send its request. While the circuit is open and less than 60000 ms have passed
  since the last recorded failure, a call throws at once, changes nothing and sends no
  request. At the first call after that, the breaker is closed, the count is set to 0 and
  the request is sent, with no timer involved. A request that settles as a success sets
  the count to 0 and changes nothing else.
\<close>

theorem circuit_breaker_state_machine:
  "(length outs = 5
      \<and> (\<forall>out \<in> set outs. \<forall>c'. isl (fst (callRoboflowAPI_await (fst out) (snd out) c')))
     \<longrightarrow> circuitOpen (settle_all outs c))
   \<and> (length outs < 5 \<and> apiFailureCount c = 0 \<and> \<not> circuitOpen c
      \<and> (\<forall>out \<in> set outs. \<forall>c'. isl (fst (callRoboflowAPI_await (fst out) (snd out) c')))
     \<longrightarrow> \<not> circuitOpen (settle_all outs c))
   \<and> (circuitOpen c \<and> now - lastFailureTime c < 60000
     \<longrightarrow> callRoboflowAPI cfg modelUrl now up t c
           = (Inl (Error ''Service temporarily unavailable - too many failures''), c, []))
   \<and> (circuitOpen c \<and> \<not> now - lastFailureTime c < 60000
      \<and> ROBOFLOW_API_KEY cfg = Some k \<and> k \<noteq> [] \<and> u \<noteq> []
     \<longrightarrow> callRoboflowAPI_enter cfg (Some u) now c
           = (Inr (u @ ''?api_key='' @ k), c\<lparr>circuitOpen := False, apiFailureCount := 0\<rparr>)
         \<and> callRoboflowAPI cfg (Some u) now up t c
           = (fst (callRoboflowAPI_await (axios_post up) t
                     (c\<lparr>circuitOpen := False, apiFailureCount := 0\<rparr>)),
              snd (callRoboflowAPI_await (axios_post up) t
                     (c\<lparr>circuitOpen := False, apiFailureCount := 0\<rparr>)),
              [u @ ''?api_key='' @ k]))
   \<and> (\<not> isl (fst (callRoboflowAPI_await res t c))
     \<longrightarrow> snd (callRoboflowAPI_await res t c) = c\<lparr>apiFailureCount := 0\<rparr>)
   \<and> (isl (fst (callRoboflowAPI_await res t c))
     \<longrightarrow> snd (callRoboflowAPI_await res t c)
           = \<lparr>apiFailureCount = apiFailureCount c + 1,
              circuitOpen = (circuitOpen c \<or> apiFailureCount c + 1 \<ge> 5),
              lastFailureTime = t\<rparr>)
   \<and> (outs \<noteq> []
      \<and> (\<forall>out \<in> set outs. \<forall>c'. isl (fst (callRoboflowAPI_await (fst out) (snd out) c')))
     \<longrightarrow> lastFailureTime (settle_all outs c) = snd (last outs)
         \<and> apiFailureCount (settle_all outs c) = apiFailureCount c + length outs)
   \<and> (length outs = 5
      \<and> (\<forall>out \<in> set outs. \<forall>c'. isl (fst (callRoboflowAPI_await (fst out) (snd out) c')))
      \<and> now - snd (last outs) < 60000
     \<longrightarrow> callRoboflowAPI cfg modelUrl now up t (settle_all outs c)
           = (Inl (Error ''Service temporarily unavailable - too many failures''),
              settle_all outs c, []))
   \<and> (length outs = 5
      \<and> (\<forall>out \<in> set outs. \<forall>c'. isl (fst (callRoboflowAPI_await (fst out) (snd out) c')))
      \<and> \<not> now - snd (last outs) < 60000
      \<and> ROBOFLOW_API_KEY cfg = Some k \<and> k \<noteq> [] \<and> u \<noteq> []
     \<longrightarrow> callRoboflowAPI_enter cfg (Some u) now (settle_all outs c)
           = (Inr (u @ ''?api_key='' @ k),
              (settle_all outs c)\<lparr>circuitOpen := False, apiFailureCount := 0\<rparr>))"
proof (intro conjI impI)
  assume h: "length outs = 5
      \<and> (\<forall>out \<in> set outs. \<forall>c'. isl (fst (callRoboflowAPI_await (fst out) (snd out) c')))"
  then have "outs \<noteq> []" by auto
  then show "circuitOpen (settle_all outs c)"
    using h settle_all_failures [of outs c] by simp
next
  assume h: "length outs < 5 \<and> apiFailureCount c = 0 \<and> \<not> circuitOpen c
      \<and> (\<forall>out \<in> set outs. \<forall>c'. isl (fst (callRoboflowAPI_await (fst out) (snd out) c')))"
  then show "\<not> circuitOpen (settle_all outs c)"
    using settle_all_failures [of outs c] by simp
next
  assume "circuitOpen c \<and> now - lastFailureTime c < 60000"
  then show "callRoboflowAPI cfg modelUrl now up t c
           = (Inl (Error ''Service temporarily unavailable - too many failures''), c, [])"
    by (simp add: callRoboflowAPI_def enter_open_in_cooldown)
next
  assume h: "circuitOpen c \<and> \<not> now - lastFailureTime c < 60000
      \<and> ROBOFLOW_API_KEY cfg = Some k \<and> k \<noteq> [] \<and> u \<noteq> []"
  then show e: "callRoboflowAPI_enter cfg (Some u) now c
           = (Inr (u @ ''?api_key='' @ k), c\<lparr>circuitOpen := False, apiFailureCount := 0\<rparr>)"
    by (simp add: enter_open_after_cooldown)
  show "callRoboflowAPI cfg (Some u) now up t c
           = (fst (callRoboflowAPI_await (axios_post up) t
                     (c\<lparr>circuitOpen := False, apiFailureCount := 0\<rparr>)),
              snd (callRoboflowAPI_await (axios_post up) t
                     (c\<lparr>circuitOpen := False, apiFailureCount := 0\<rparr>)),
              [u @ ''?api_key='' @ k])"
    by (simp add: callRoboflowAPI_def e split: prod.splits)
next
  assume "\<not> isl (fst (callRoboflowAPI_await res t c))"
  then show "snd (callRoboflowAPI_await res t c) = c\<lparr>apiFailureCount := 0\<rparr>"
    by (rule await_success_state)
next
  assume "isl (fst (callRoboflowAPI_await res t c))"
  then show "snd (callRoboflowAPI_await res t c)
           = \<lparr>apiFailureCount = apiFailureCount c + 1,
              circuitOpen = (circuitOpen c \<or> apiFailureCount c + 1 \<ge> 5),
              lastFailureTime = t\<rparr>"
    by (rule await_fail_state)
next
  assume h: "outs \<noteq> []
      \<and> (\<forall>out \<in> set outs. \<forall>c'. isl (fst (callRoboflowAPI_await (fst out) (snd out) c')))"
  show "lastFailureTime (settle_all outs c) = snd (last outs)"
    using h by (simp add: settle_all_last_failure)
  show "apiFailureCount (settle_all outs c) = apiFailureCount c + length outs"
    using h settle_all_failures [of outs c] by simp
next
  assume h: "length outs = 5
      \<and> (\<forall>out \<in> set outs. \<forall>c'. isl (fst (callRoboflowAPI_await (fst out) (snd out) c')))
      \<and> now - snd (last outs) < 60000"
  then have ne: "outs \<noteq> []" by auto
  have o: "circuitOpen (settle_all outs c)"
    using h ne settle_all_failures [of outs c] by simp
  have l: "lastFailureTime (settle_all outs c) = snd (last outs)"
    using h ne by (simp add: settle_all_last_failure)
  show "callRoboflowAPI cfg modelUrl now up t (settle_all outs c)
           = (Inl (Error ''Service temporarily unavailable - too many failures''),
              settle_all outs c, [])"
    using h o l by (simp add: callRoboflowAPI_def enter_open_in_cooldown)
next
  assume h: "length outs = 5
      \<and> (\<forall>out \<in> set outs. \<forall>c'. isl (fst (callRoboflowAPI_await (fst out) (snd out) c')))
      \<and> \<not> now - snd (last outs) < 60000
      \<and> ROBOFLOW_API_KEY cfg = Some k \<and> k \<noteq> [] \<and> u \<noteq> []"
  then have ne: "outs \<noteq> []" by auto
  have o: "circuitOpen (settle_all outs c)"
    using h ne settle_all_failures [of outs c] by simp
  have l: "lastFailureTime (settle_all outs c) = snd (last outs)"
    using h ne by (simp add: settle_all_last_failure)
  show "callRoboflowAPI_enter cfg (Some u) now (settle_all outs c)
           = (Inr (u @ ''?api_key='' @ k),
              (settle_all outs c)\<lparr>circuitOpen := False, apiFailureCount := 0\<rparr>)"
    using h o l by (simp add: enter_open_after_cooldown)
qed

theorem circuit_breaker_state_machine_witness:
  "circuitOpen (settle_all
      [(axios_post (ex_status 500), 1), (axios_post (ex_status 429), 2),
       (axios_post (TransportFailure (Some ''ECONNREFUSED'') ''Error'' ''refused''), 3),
       (axios_post (ex_status 503), 4), (axios_post (ex_status 404), 5)] ex_circuit)
   \<and> \<not> circuitOpen (settle_all
      [(axios_post (ex_status 500), 1), (axios_post (ex_status 429), 2),
       (axios_post (ex_status 503), 4), (axios_post (ex_status 404), 5)] ex_circuit)
   \<and> callRoboflowAPI ex_config (Some ''https://m1'') 30000 (ex_ok []) 30100
        \<lparr>apiFailureCount = 5, circuitOpen = True, lastFailureTime = 5\<rparr>
       = (Inl (Error ''Service temporarily unavailable - too many failures''),
          \<lparr>apiFailureCount = 5, circuitOpen = True, lastFailureTime = 5\<rparr>, [])
   \<and> callRoboflowAPI ex_config (Some ''https://m1'') 60005 (ex_ok []) 60100
        \<lparr>apiFailureCount = 5, circuitOpen = True, lastFailureTime = 5\<rparr>
       = (Inr \<lparr>predictions = Some [], image_width = 640, image_height = 480\<rparr>,
          \<lparr>apiFailureCount = 0, circuitOpen = False, lastFailureTime = 5\<rparr>,
          [''https://m1?api_key=k1''])
   \<and> snd (callRoboflowAPI_await (axios_post (ex_ok [])) 7
        \<lparr>apiFailureCount = 3, circuitOpen = False, lastFailureTime = 5\<rparr>)
       = \<lparr>apiFailureCount = 0, circuitOpen = False, lastFailureTime = 5\<rparr>
   \<and> lastFailureTime (settle_all
      [(axios_post (ex_status 500), 1), (axios_post (ex_status 429), 2),
       (axios_post (TransportFailure (Some ''ECONNREFUSED'') ''Error'' ''refused''), 3),
       (axios_post (ex_status 503), 4), (axios_post (ex_status 404), 5)] ex_circuit) = 5
   \<and> fst (callRoboflowAPI ex_config (Some ''https://m1'') 30000 (ex_ok []) 30100 (settle_all
      [(axios_post (ex_status 500), 1), (axios_post (ex_status 429), 2),
       (axios_post (TransportFailure (Some ''ECONNREFUSED'') ''Error'' ''refused''), 3),
       (axios_post (ex_status 503), 4), (axios_post (ex_status 404), 5)] ex_circuit))
       = Inl (Error ''Service temporarily unavailable - too many failures'')
   \<and> fst (callRoboflowAPI_enter ex_config (Some ''https://m1'') 60005 (settle_all
      [(axios_post (ex_status 500), 1), (axios_post (ex_status 429), 2),
       (axios_post (TransportFailure (Some ''ECONNREFUSED'') ''Error'' ''refused''), 3),
       (axios_post (ex_status 503), 4), (axios_post (ex_status 404), 5)] ex_circuit))
       = Inr ''https://m1?api_key=k1''"
  using circuit_breaker_state_machine
    [where outs = "[(axios_post (ex_status 500), 1), (axios_post (ex_status 429), 2),
       (axios_post (TransportFailure (Some ''ECONNREFUSED'') ''Error'' ''refused''), 3),
       (axios_post (ex_status 503), 4), (axios_post (ex_status 404), 5)]"
       and c = ex_circuit and now = 30000 and cfg = ex_config
       and modelUrl = "Some ''https://m1''" and up = "ex_ok []" and t = 30100
       and res = "axios_post (ex_ok [])"]
    circuit_breaker_state_machine
    [where outs = "[(axios_post (ex_status 500), 1), (axios_post (ex_status 429), 2),
       (axios_post (TransportFailure (Some ''ECONNREFUSED'') ''Error'' ''refused''), 3),
       (axios_post (ex_status 503), 4), (axios_post (ex_status 404), 5)]"
       and c = ex_circuit and now = 60005 and cfg = ex_config and u = "''https://m1''"
       and k = "''k1''" and res = "axios_post (ex_ok [])"]
    circuit_breaker_state_machine
    [where outs = "[(axios_post (ex_status 500), 1), (axios_post (ex_status 429), 2),
       (axios_post (TransportFailure (Some ''ECONNREFUSED'') ''Error'' ''refused''), 3),
       (axios_post (ex_status 503), 4), (axios_post (ex_status 404), 5)]"
       and c = ex_circuit and now = 0 and res = "axios_post (ex_ok [])"]
    circuit_breaker_state_machine
    [where outs = "[(axios_post (ex_status 500), 1), (axios_post (ex_status 429), 2),
       (axios_post (ex_status 503), 4), (axios_post (ex_status 404), 5)]"
       and c = ex_circuit and now = 0 and res = "axios_post (ex_ok [])"]
    circuit_breaker_state_machine
    [where outs = "[]" and c = "\<lparr>apiFailureCount = 5, circuitOpen = True, lastFailureTime = 5\<rparr>"
       and now = 30000 and cfg = ex_config and modelUrl = "Some ''https://m1''"
       and up = "ex_ok []" and t = 30100 and res = "axios_post (ex_ok [])"]
    circuit_breaker_state_machine
    [where outs = "[]" and c = "\<lparr>apiFailureCount = 5, circuitOpen = True, lastFailureTime = 5\<rparr>"
       and now = 60005 and cfg = ex_config and u = "''https://m1''" and k = "''k1''"
       and up = "ex_ok []" and t = 60100 and res = "axios_post (ex_ok [])"]
    circuit_breaker_state_machine
    [where outs = "[]" and c = "\<lparr>apiFailureCount = 3, circuitOpen = False, lastFailureTime = 5\<rparr>"
       and now = 0 and t = 7 and res = "axios_post (ex_ok [])"]
  by (simp add: callRoboflowAPI_await_def catch_block_def axios_post_def validateStatus_def
      ex_status_def ex_ok_def ex_circuit_def ex_config_def Let_def)

section \<open>Properties of the inference client\<close>

lemma non_200_response_is_network_error:
  "resp_status r < 600 \<Longrightarrow> resp_status r \<noteq> 200 \<Longrightarrow>
     fst (callRoboflowAPI_await (axios_post (HttpResponse r)) t c)
       = Inl (Error (''Network error - HTTP '' @ show_nat (resp_status r) @ '': '' @ resp_json r))"
  by (simp add: callRoboflowAPI_await_def axios_post_def validateStatus_def catch_block_def
      rethrown_def Error_def Let_def)

text \<open>
  C1. An upstream answer with status 429 is not classified as a rate limit. Every status
  below 600 resolves the request; the handler of the resolved response throws a plain
  error for a status other than 200 inside the \<^verbatim>\<open>try\<close> block, and the \<^verbatim>\<open>catch\<close> block,
  finding no \<open>response\<close> on it, throws the network error. The same happens to 401, 400
  and 503, and the user is shown the generic message.
\<close>

theorem status_429_classified_as_network_error:
  "callRoboflowAPI ex_config (Some ''https://m1'') 1000 (ex_status 429) 1100 ex_circuit
     = (Inl (Error ''Network error - HTTP 429: {}''),
        \<lparr>apiFailureCount = 1, circuitOpen = False, lastFailureTime = 1100\<rparr>,
        [''https://m1?api_key=k1''])
   \<and> fst (callRoboflowAPI ex_config (Some ''https://m1'') 1000 (ex_status 429) 1100 ex_circuit)
       \<noteq> Inl (Error ''API rate limit exceeded'')
   \<and> fst (callRoboflowAPI ex_config (Some ''https://m1'') 1000 (ex_status 401) 1100 ex_circuit)
       = Inl (Error ''Network error - HTTP 401: {}'')
   \<and> fst (callRoboflowAPI ex_config (Some ''https://m1'') 1000 (ex_status 400) 1100 ex_circuit)
       = Inl (Error ''Network error - HTTP 400: {}'')
   \<and> fst (callRoboflowAPI ex_config (Some ''https://m1'') 1000 (ex_status 503) 1100 ex_circuit)
       = Inl (Error ''Network error - HTTP 503: {}'')
   \<and> sanitizeError (Error ''Network error - HTTP 429: {}'')
       = ''An error occurred during processing.''"
  by (simp add: callRoboflowAPI_def handler_defs ex_config_def ex_status_def ex_circuit_def
      show_nat.simps digit_char_def)

section \<open>Properties of the admission slots\<close>

lemma slot_events_simps [simp]:
  "slot_events [] = []"
  "slot_events (SlotSet u # tr) = SlotSet u # slot_events tr"
  "slot_events (SlotDelete u # tr) = SlotDelete u # slot_events tr"
  "slot_events (UsageRead # tr) = slot_events tr"
  "slot_events (UpstreamPost v # tr) = slot_events tr"
  "slot_events (tr @ tr') = slot_events tr @ slot_events tr'"
  by (simp_all add: slot_events_def)

lemma slot_events_posts [simp]: "slot_events (map UpstreamPost sent) = []"
  by (induction sent) simp_all

lemma detect_admitted_slots:
  "activeUploads (fst (snd (detect_admitted cfg req w s))) = activeUploads s
   \<and> slot_events (snd (snd (detect_admitted cfg req w s))) = []"
  by (simp add: detect_admitted_unfold Let_def split: prod.splits option.splits sum.splits)

lemma length_update_le: "length (AList.update k v al) \<le> Suc (length al)"
  by (induction al) auto

lemma detect_admitted_cases:
  obtains resp s1 tr where
    "detect_admitted cfg req w s = (resp, s1, tr)"
    "activeUploads s1 = activeUploads s" "slot_events tr = []"
proof -
  obtain resp s1 tr where e: "detect_admitted cfg req w s = (resp, s1, tr)"
    by (cases "detect_admitted cfg req w s") auto
  with detect_admitted_slots [of cfg req w s]
  have "activeUploads s1 = activeUploads s" "slot_events tr = []" by simp_all
  with e show ?thesis by (rule that)
qed

lemma detect_slots:
  "activeUploads (fst (snd (detect cfg req w s))) = AList.delete (uploadId w) (activeUploads s)"
proof (cases "length (activeUploads s) \<ge> MAX_CONCURRENT_UPLOADS")
  case True
  then show ?thesis by (simp add: detect_unfold)
next
  case False
  obtain resp s1 tr where
    "detect_admitted cfg req w
       (s\<lparr>activeUploads := AList.update (uploadId w) True (activeUploads s)\<rparr>) = (resp, s1, tr)"
    "activeUploads s1 = AList.update (uploadId w) True (activeUploads s)"
    by (rule detect_admitted_cases
        [of cfg req w "s\<lparr>activeUploads := AList.update (uploadId w) True (activeUploads s)\<rparr>"])
      simp
  then show ?thesis
    using False by (simp add: detect_unfold AList.delete_update_same)
qed

lemma detect_trace_admitted:
  assumes "length (activeUploads s) < MAX_CONCURRENT_UPLOADS"
  shows "slot_events (snd (snd (detect cfg req w s)))
           = [SlotSet (uploadId w), SlotDelete (uploadId w)]"
proof -
  obtain resp s1 tr where
    "detect_admitted cfg req w
       (s\<lparr>activeUploads := AList.update (uploadId w) True (activeUploads s)\<rparr>) = (resp, s1, tr)"
    "slot_events tr = []"
    by (rule detect_admitted_cases
        [of cfg req w "s\<lparr>activeUploads := AList.update (uploadId w) True (activeUploads s)\<rparr>"])
  then show ?thesis
    using assms by (simp add: detect_unfold)
qed

lemma detect_at_capacity:
  "length (activeUploads s) \<ge> MAX_CONCURRENT_UPLOADS \<Longrightarrow>
     detect cfg req w s
       = (Capacity_error, s\<lparr>activeUploads := AList.delete (uploadId w) (activeUploads s)\<rparr>,
          [SlotDelete (uploadId w)])"
  by (simp add: detect_unfold)

lemma fresh_slot_round_trip:
  "u \<notin> fst ` set m \<Longrightarrow> AList.delete u (AList.update u True m) = m \<and> AList.delete u m = m"
  by (simp add: AList.delete_update_same)

lemma detect_checks_answered:
  "detect_checks cfg req w s = Inl (resp, s1, tr)
     \<Longrightarrow> activeUploads s1 = activeUploads s \<and> slot_events tr = []"
  by (auto simp: detect_checks_def Let_def split: prod.splits option.splits if_splits)

lemma detect_checks_passed:
  "detect_checks cfg req w s = Inr (fl, s1, tr)
     \<Longrightarrow> activeUploads s1 = activeUploads s \<and> slot_events tr = []"
  by (auto simp: detect_checks_def Let_def split: prod.splits option.splits if_splits)

lemma detect_pipeline_slots:
  "detect_pipeline cfg req fl w s = (resp, s2, tr)
     \<Longrightarrow> activeUploads s2 = activeUploads s \<and> slot_events tr = []"
  by (auto simp: detect_pipeline_def split: prod.splits sum.splits if_splits)

lemma length_update_fresh:
  "k \<notin> fst ` set al \<Longrightarrow> length (AList.update k v al) = Suc (length al)"
  by (induction al) auto

lemma map_of_update_same: "map_of (AList.update k v al) k = Some v"
  by (simp add: AList.update_conv')

lemma length_delete_present:
  "distinct (map fst al) \<Longrightarrow> k \<in> fst ` set al \<Longrightarrow> Suc (length (AList.delete k al)) = length al"
proof (induction al)
  case Nil
  then show ?case by simp
next
  case (Cons a al)
  show ?case
  proof (cases "fst a = k")
    case True
    then have "k \<notin> fst ` set al" using Cons.prems by auto
    then show ?thesis using True by simp
  next
    case False
    then show ?thesis using Cons by auto
  qed
qed

lemma entry_suspended:
  assumes "detect_entry cfg req w s = Inr (fl, s1, tr)"
  shows "length (activeUploads s) < MAX_CONCURRENT_UPLOADS
         \<and> activeUploads s1 = AList.update (uploadId w) True (activeUploads s)
         \<and> slot_events tr = [SlotSet (uploadId w)]"
proof -
  let ?s = "s\<lparr>activeUploads := AList.update (uploadId w) True (activeUploads s)\<rparr>"
  have below: "length (activeUploads s) < MAX_CONCURRENT_UPLOADS"
    using assms by (auto simp: detect_entry_def split: if_splits)
  then obtain tr0 where c: "detect_checks cfg req w ?s = Inr (fl, s1, tr0)"
    and t: "tr = SlotSet (uploadId w) # tr0"
    using assms by (auto simp: detect_entry_def split: if_splits sum.splits prod.splits)
  show ?thesis
    using below t detect_checks_passed [OF c] by simp
qed

lemma entry_answered:
  assumes "detect_entry cfg req w s = Inl (resp, s1, tr)"
  shows "activeUploads s1 = AList.delete (uploadId w) (activeUploads s)
         \<and> (length (activeUploads s) \<ge> MAX_CONCURRENT_UPLOADS
              \<longrightarrow> resp = Capacity_error \<and> tr = [SlotDelete (uploadId w)])
         \<and> (length (activeUploads s) < MAX_CONCURRENT_UPLOADS
              \<longrightarrow> slot_events tr = [SlotSet (uploadId w), SlotDelete (uploadId w)])"
proof (cases "length (activeUploads s) \<ge> MAX_CONCURRENT_UPLOADS")
  case True
  then show ?thesis using assms by (auto simp: detect_entry_def)
next
  case False
  let ?s = "s\<lparr>activeUploads := AList.update (uploadId w) True (activeUploads s)\<rparr>"
  obtain s0 tr0 where c: "detect_checks cfg req w ?s = Inl (resp, s0, tr0)"
    and t: "tr = SlotSet (uploadId w) # tr0 @ [SlotDelete (uploadId w)]"
    and st: "s1 = s0\<lparr>activeUploads := AList.delete (uploadId w) (activeUploads s0)\<rparr>"
    using assms False by (auto simp: detect_entry_def split: if_splits sum.splits prod.splits)
  show ?thesis
    using False t st detect_checks_answered [OF c]
    by (simp add: AList.delete_update_same)
qed

lemma resume_releases:
  assumes "detect_resume cfg req fl w s = (resp, s2, tr)"
  shows "activeUploads s2 = AList.delete (uploadId w) (activeUploads s)
         \<and> slot_events tr = [SlotDelete (uploadId w)]"
proof -
  obtain s0 tr0 where p: "detect_pipeline cfg req fl w s = (resp, s0, tr0)"
    and t: "tr = tr0 @ [SlotDelete (uploadId w)]"
    and st: "s2 = s0\<lparr>activeUploads := AList.delete (uploadId w) (activeUploads s0)\<rparr>"
    using assms by (auto simp: detect_resume_def split: prod.splits)
  show ?thesis
    using t st detect_pipeline_slots [OF p] by simp
qed

lemma server_step_bounded:
  assumes "length (activeUploads s) \<le> MAX_CONCURRENT_UPLOADS"
  shows "length (activeUploads (server_step s a)) \<le> MAX_CONCURRENT_UPLOADS"
proof (cases a)
  case (Arrival cfg req w)
  show ?thesis
  proof (cases "detect_entry cfg req w s")
    case (Inl r)
    obtain resp s1 tr where r: "r = (resp, s1, tr)" by (cases r)
    have "activeUploads s1 = AList.delete (uploadId w) (activeUploads s)"
      using entry_answered [of cfg req w s resp s1 tr] Inl r by simp
    then show ?thesis
      using assms Arrival Inl r AList.length_delete_le [of "uploadId w" "activeUploads s"]
      by (simp add: state_after_entry_def)
  next
    case (Inr r)
    obtain fl s1 tr where r: "r = (fl, s1, tr)" by (cases r)
    have "length (activeUploads s) < MAX_CONCURRENT_UPLOADS"
      "activeUploads s1 = AList.update (uploadId w) True (activeUploads s)"
      using entry_suspended [of cfg req w s fl s1 tr] Inr r by simp_all
    then show ?thesis
      using Arrival Inr r length_update_le [of "uploadId w" True "activeUploads s"]
      by (simp add: state_after_entry_def)
  qed
next
  case (Resumption cfg req fl w)
  obtain resp s2 tr where e: "detect_resume cfg req fl w s = (resp, s2, tr)"
    by (cases "detect_resume cfg req fl w s") auto
  have "activeUploads s2 = AList.delete (uploadId w) (activeUploads s)"
    using resume_releases [OF e] by simp
  then show ?thesis
    using assms Resumption e AList.length_delete_le [of "uploadId w" "activeUploads s"]
    by simp
qed

lemma server_run_bounded:
  "length (activeUploads s) \<le> MAX_CONCURRENT_UPLOADS
     \<Longrightarrow> length (activeUploads (server_run steps s)) \<le> MAX_CONCURRENT_UPLOADS"
  unfolding server_run_def
  by (induction steps arbitrary: s) (simp_all add: server_step_bounded)

text \<open>
  C2. A request that arrives below the ceiling performs exactly one insertion of its upload
  id and exactly one deletion of it, in this order, on every exit path; one that arrives at
  the ceiling is answered with the capacity error and performs no insertion. While the
  handler is suspended its upload id is in the slot map, which then holds one entry more
  than at arrival (for an id not in use) and at most \<open>MAX_CONCURRENT_UPLOADS = 10\<close>; a
  handler that answers at once has deleted its id again. The resumed handler ends, on
  whatever state it finds and on every path, by deleting its own id, which takes exactly
  one entry out of the slot map. Over any sequence of arrivals and resumptions of
  handlers the slot map never holds more than 10 entries.
\<close>

theorem admission_slot_paired_and_bounded:
  "(length (activeUploads s) < MAX_CONCURRENT_UPLOADS
     \<longrightarrow> slot_events (snd (snd (detect cfg req w s)))
           = [SlotSet (uploadId w), SlotDelete (uploadId w)])
   \<and> (length (activeUploads s) \<ge> MAX_CONCURRENT_UPLOADS
     \<longrightarrow> fst (detect cfg req w s) = Capacity_error
         \<and> snd (snd (detect cfg req w s)) = [SlotDelete (uploadId w)])
   \<and> (uploadId w \<notin> fst ` set (activeUploads s)
     \<longrightarrow> activeUploads (fst (snd (detect cfg req w s))) = activeUploads s)
   \<and> (detect_entry cfg req w s = Inr (fl, s1, tr)
     \<longrightarrow> length (activeUploads s) < MAX_CONCURRENT_UPLOADS
         \<and> activeUploads s1 = AList.update (uploadId w) True (activeUploads s)
         \<and> map_of (activeUploads s1) (uploadId w) = Some True
         \<and> length (activeUploads s1) \<le> MAX_CONCURRENT_UPLOADS
         \<and> slot_events tr = [SlotSet (uploadId w)]
         \<and> (uploadId w \<notin> fst ` set (activeUploads s)
            \<longrightarrow> length (activeUploads s1) = Suc (length (activeUploads s))))
   \<and> (detect_entry cfg req w s = Inl (resp, s1, tr)
     \<longrightarrow> activeUploads s1 = AList.delete (uploadId w) (activeUploads s)
         \<and> (length (activeUploads s) \<ge> MAX_CONCURRENT_UPLOADS
            \<longrightarrow> resp = Capacity_error \<and> tr = [SlotDelete (uploadId w)])
         \<and> (length (activeUploads s) < MAX_CONCURRENT_UPLOADS
            \<longrightarrow> slot_events tr = [SlotSet (uploadId w), SlotDelete (uploadId w)]))
   \<and> (detect_resume cfg req fl w s = (resp, s1, tr)
     \<longrightarrow> activeUploads s1 = AList.delete (uploadId w) (activeUploads s)
         \<and> uploadId w \<notin> fst ` set (activeUploads s1)
         \<and> slot_events tr = [SlotDelete (uploadId w)]
         \<and> (distinct (map fst (activeUploads s)) \<and> uploadId w \<in> fst ` set (activeUploads s)
            \<longrightarrow> Suc (length (activeUploads s1)) = length (activeUploads s)))
   \<and> (length (activeUploads s) \<le> MAX_CONCURRENT_UPLOADS
     \<longrightarrow> length (activeUploads (server_run steps s)) \<le> MAX_CONCURRENT_UPLOADS)
   \<and> MAX_CONCURRENT_UPLOADS = 10"
proof (intro conjI impI)
  assume "length (activeUploads s) < MAX_CONCURRENT_UPLOADS"
  then show "slot_events (snd (snd (detect cfg req w s)))
           = [SlotSet (uploadId w), SlotDelete (uploadId w)]"
    by (rule detect_trace_admitted)
next
  assume h: "length (activeUploads s) \<ge> MAX_CONCURRENT_UPLOADS"
  show "fst (detect cfg req w s) = Capacity_error"
    by (simp add: detect_at_capacity [OF h])
  show "snd (snd (detect cfg req w s)) = [SlotDelete (uploadId w)]"
    by (simp add: detect_at_capacity [OF h])
next
  assume h: "uploadId w \<notin> fst ` set (activeUploads s)"
  show "activeUploads (fst (snd (detect cfg req w s))) = activeUploads s"
    using fresh_slot_round_trip [OF h] by (simp add: detect_slots)
next
  assume e: "detect_entry cfg req w s = Inr (fl, s1, tr)"
  note k = entry_suspended [OF e]
  show "length (activeUploads s) < MAX_CONCURRENT_UPLOADS"
    "activeUploads s1 = AList.update (uploadId w) True (activeUploads s)"
    "slot_events tr = [SlotSet (uploadId w)]"
    using k by simp_all
  show "map_of (activeUploads s1) (uploadId w) = Some True"
    using k by (simp add: map_of_update_same)
  show "length (activeUploads s1) \<le> MAX_CONCURRENT_UPLOADS"
    using k length_update_le [of "uploadId w" True "activeUploads s"] by simp
  assume "uploadId w \<notin> fst ` set (activeUploads s)"
  then show "length (activeUploads s1) = Suc (length (activeUploads s))"
    using k by (simp add: length_update_fresh)
next
  assume e: "detect_entry cfg req w s = Inl (resp, s1, tr)"
  note k = entry_answered [OF e]
  show "activeUploads s1 = AList.delete (uploadId w) (activeUploads s)"
    using k by simp
  {
    assume "length (activeUploads s) \<ge> MAX_CONCURRENT_UPLOADS"
    then show "resp = Capacity_error" "tr = [SlotDelete (uploadId w)]"
      using k by simp_all
  }
  assume "length (activeUploads s) < MAX_CONCURRENT_UPLOADS"
  then show "slot_events tr = [SlotSet (uploadId w), SlotDelete (uploadId w)]"
    using k by simp
next
  assume e: "detect_resume cfg req fl w s = (resp, s1, tr)"
  note k = resume_releases [OF e]
  show "activeUploads s1 = AList.delete (uploadId w) (activeUploads s)"
    "slot_events tr = [SlotDelete (uploadId w)]"
    using k by simp_all
  show "uploadId w \<notin> fst ` set (activeUploads s1)"
    using k by (simp add: AList.delete_notin_dom)
  assume "distinct (map fst (activeUploads s)) \<and> uploadId w \<in> fst ` set (activeUploads s)"
  then show "Suc (length (activeUploads s1)) = length (activeUploads s)"
    using k by (simp add: length_delete_present)
next
  assume "length (activeUploads s) \<le> MAX_CONCURRENT_UPLOADS"
  then show "length (activeUploads (server_run steps s)) \<le> MAX_CONCURRENT_UPLOADS"
    by (rule server_run_bounded)
next
  show "MAX_CONCURRENT_UPLOADS = 10"
    by (simp add: MAX_CONCURRENT_UPLOADS_def)
qed

theorem admission_slot_paired_and_bounded_witness:
  "map_of (activeUploads (state_after_entry (detect_entry ex_config ex_request
       (ex_world (ex_ok []) (ex_ok [])) ex_server))) ''1000-abc'' = Some True
   \<and> length (activeUploads (state_after_entry (detect_entry ex_config ex_request
       (ex_world (ex_ok []) (ex_ok [])) ex_server))) = 1
   \<and> activeUploads (fst (snd (detect_resume ex_config ex_request ex_file (ex_world (ex_ok []) (ex_ok []))
       (state_after_entry (detect_entry ex_config ex_request (ex_world (ex_ok []) (ex_ok [])) ex_server))))) = []
   \<and> slot_events (snd (snd (detect ex_config ex_request
       (ex_world (ex_status 500) (ex_ok [])) ex_server)))
     = [SlotSet ''1000-abc'', SlotDelete ''1000-abc'']
   \<and> fst (detect ex_config ex_request (ex_world (ex_ok []) (ex_ok []))
       (ex_server\<lparr>activeUploads := ex_full_uploads\<rparr>)) = Capacity_error
   \<and> snd (snd (detect ex_config ex_request (ex_world (ex_ok []) (ex_ok []))
       (ex_server\<lparr>activeUploads := ex_full_uploads\<rparr>))) = [SlotDelete ''1000-abc'']
   \<and> length (activeUploads (server_run
       [Arrival ex_config ex_request (ex_world (ex_ok []) (ex_ok [])),
        Arrival ex_config ex_request ((ex_world (ex_ok []) (ex_ok []))\<lparr>uploadId := ''1001-xyz''\<rparr>),
        Resumption ex_config ex_request ex_file (ex_world (ex_ok []) (ex_ok []))] ex_server)) \<le> 10"
proof -
  have u: "uploadId (ex_world a b) = ''1000-abc''" for a b
    by (simp add: ex_world_def)
  have below: "length (activeUploads ex_server) < MAX_CONCURRENT_UPLOADS"
    by (simp add: ex_server_def MAX_CONCURRENT_UPLOADS_def)
  have none: "activeUploads ex_server = []"
    by (simp add: ex_server_def)
  have full: "length (activeUploads (ex_server\<lparr>activeUploads := ex_full_uploads\<rparr>))
                \<ge> MAX_CONCURRENT_UPLOADS"
    by (simp add: ex_full_uploads_def MAX_CONCURRENT_UPLOADS_def)
  have "\<exists>fl s1 tr. detect_entry ex_config ex_request (ex_world (ex_ok []) (ex_ok [])) ex_server = Inr (fl, s1, tr)"
    by (simp add: detect_entry_def detect_checks_def handler_defs ex_config_def ex_request_def
        ex_world_def ex_server_def ex_circuit_def ex_database_def)
  then obtain fl s1 tr where
    e: "detect_entry ex_config ex_request (ex_world (ex_ok []) (ex_ok [])) ex_server = Inr (fl, s1, tr)"
    by blast
  obtain resp s2 tr2 where
    r: "detect_resume ex_config ex_request ex_file (ex_world (ex_ok []) (ex_ok [])) s1 = (resp, s2, tr2)"
    by (cases "detect_resume ex_config ex_request ex_file (ex_world (ex_ok []) (ex_ok [])) s1") auto
  have st: "state_after_entry (detect_entry ex_config ex_request (ex_world (ex_ok []) (ex_ok [])) ex_server) = s1"
    by (simp add: e state_after_entry_def)
  have held: "activeUploads s1 = [(''1000-abc'', True)]"
    "map_of (activeUploads s1) ''1000-abc'' = Some True"
    using e none
      admission_slot_paired_and_bounded
        [where s = ex_server and w = "(ex_world (ex_ok []) (ex_ok []))" and cfg = ex_config and req = ex_request
           and fl = fl and ?s1.0 = s1 and tr = tr and steps = "[]"]
    by (simp_all add: u)
  have released: "activeUploads s2 = []"
    using r held
      admission_slot_paired_and_bounded
        [where s = s1 and w = "(ex_world (ex_ok []) (ex_ok []))" and cfg = ex_config and req = ex_request
           and fl = ex_file and ?s1.0 = s2 and resp = resp and tr = tr2 and steps = "[]"]
    by (simp add: u)
  have failing: "slot_events (snd (snd (detect ex_config ex_request
       (ex_world (ex_status 500) (ex_ok [])) ex_server)))
     = [SlotSet ''1000-abc'', SlotDelete ''1000-abc'']"
    using below
      admission_slot_paired_and_bounded
        [where s = ex_server and w = "ex_world (ex_status 500) (ex_ok [])" and cfg = ex_config
           and req = ex_request and steps = "[]"]
    by (simp add: u)
  have rejected: "fst (detect ex_config ex_request (ex_world (ex_ok []) (ex_ok []))
       (ex_server\<lparr>activeUploads := ex_full_uploads\<rparr>)) = Capacity_error"
    "snd (snd (detect ex_config ex_request (ex_world (ex_ok []) (ex_ok []))
       (ex_server\<lparr>activeUploads := ex_full_uploads\<rparr>))) = [SlotDelete ''1000-abc'']"
    using full
      admission_slot_paired_and_bounded
        [where s = "ex_server\<lparr>activeUploads := ex_full_uploads\<rparr>"
           and w = "(ex_world (ex_ok []) (ex_ok []))" and cfg = ex_config and req = ex_request and steps = "[]"]
    by (simp_all add: u)
  have bounded: "length (activeUploads (server_run
       [Arrival ex_config ex_request (ex_world (ex_ok []) (ex_ok [])),
        Arrival ex_config ex_request ((ex_world (ex_ok []) (ex_ok []))\<lparr>uploadId := ''1001-xyz''\<rparr>),
        Resumption ex_config ex_request ex_file (ex_world (ex_ok []) (ex_ok []))] ex_server)) \<le> 10"
    using below
      admission_slot_paired_and_bounded
        [where s = ex_server and steps = "[Arrival ex_config ex_request (ex_world (ex_ok []) (ex_ok [])),
        Arrival ex_config ex_request ((ex_world (ex_ok []) (ex_ok []))\<lparr>uploadId := ''1001-xyz''\<rparr>),
        Resumption ex_config ex_request ex_file (ex_world (ex_ok []) (ex_ok []))]"]
    by simp
  show ?thesis
    using held released failing rejected bounded by (simp add: st r)
qed

section \<open>Properties of the daily budget\<close>

















section \<open>Properties of the decision sequence\<close>

lemma foldl_keeps_first_max:
  assumes "l = ys @ m # zs"
    and "\<forall>y \<in> set ys. p_confidence y < p_confidence m"
    and "\<forall>z \<in> set zs. p_confidence z \<le> p_confidence m"
  shows "\<exists>ys' zs'. l @ xs = ys' @ top_of m xs # zs'
           \<and> (\<forall>y \<in> set ys'. p_confidence y < p_confidence (top_of m xs))
           \<and> (\<forall>z \<in> set zs'. p_confidence z \<le> p_confidence (top_of m xs))"
  using assms
proof (induction xs arbitrary: l ys m zs)
  case Nil
  then show ?case by (auto simp: top_of_def)
next
  case (Cons x xs)
  show ?case
  proof (cases "p_confidence x > p_confidence m")
    case True
    have step: "top_of m (x # xs) = top_of x xs"
      using True by (simp add: top_of_def)
    have all: "\<forall>y \<in> set l. p_confidence y < p_confidence x"
      using Cons.prems True by auto
    have "\<exists>ys' zs'. (l @ [x]) @ xs = ys' @ top_of x xs # zs'
           \<and> (\<forall>y \<in> set ys'. p_confidence y < p_confidence (top_of x xs))
           \<and> (\<forall>z \<in> set zs'. p_confidence z \<le> p_confidence (top_of x xs))"
      by (rule Cons.IH [of "l @ [x]" l x "[]"]) (use all in simp_all)
    then show ?thesis
      by (simp add: step)
  next
    case False
    have step: "top_of m (x # xs) = top_of m xs"
      using False by (simp add: top_of_def)
    have "\<exists>ys' zs'. (l @ [x]) @ xs = ys' @ top_of m xs # zs'
           \<and> (\<forall>y \<in> set ys'. p_confidence y < p_confidence (top_of m xs))
           \<and> (\<forall>z \<in> set zs'. p_confidence z \<le> p_confidence (top_of m xs))"
      by (rule Cons.IH [of "l @ [x]" ys m "zs @ [x]"]) (use Cons.prems False in auto)
    then show ?thesis
      by (simp add: step)
  qed
qed

lemma find_first_satisfying:
  "(\<forall>y \<in> set ys. \<not> P y) \<Longrightarrow> P m \<Longrightarrow> find P (ys @ m # zs) = Some m"
  by (induction ys) auto

lemma top_of_is_arg_max: "spec_arg_max (p # ps) = Some (top_of p (p # ps))"
proof -
  have first: "top_of p (p # ps) = top_of p ps"
    by (simp add: top_of_def)
  obtain ys zs where d: "[p] @ ps = ys @ top_of p ps # zs"
    and lt: "\<forall>y \<in> set ys. p_confidence y < p_confidence (top_of p ps)"
    and le: "\<forall>z \<in> set zs. p_confidence z \<le> p_confidence (top_of p ps)"
    using foldl_keeps_first_max [of "[p]" "[]" p "[]" ps] by auto
  let ?P = "\<lambda>a. \<forall>q \<in> set (p # ps). p_confidence q \<le> p_confidence a"
  have d': "p # ps = ys @ top_of p ps # zs"
    using d by simp
  have parts: "set (p # ps) = set ys \<union> {top_of p ps} \<union> set zs"
    unfolding d' by auto
  have mem: "top_of p ps \<in> set (p # ps)"
    unfolding parts by simp
  have no: "\<forall>y \<in> set ys. \<not> ?P y"
    using lt mem by (meson not_le)
  have yes: "?P (top_of p ps)"
  proof
    fix q assume "q \<in> set (p # ps)"
    then have "q \<in> set ys \<or> q = top_of p ps \<or> q \<in> set zs"
      unfolding parts by auto
    then show "p_confidence q \<le> p_confidence (top_of p ps)"
      using lt le by (auto simp: less_imp_le)
  qed
  have "find ?P (ys @ top_of p ps # zs) = Some (top_of p ps)"
    using no yes by (rule find_first_satisfying)
  then have "find ?P (p # ps) = Some (top_of p ps)"
    by (simp only: d' [symmetric])
  then show ?thesis
    by (simp add: spec_arg_max_def first)
qed

lemma rounded2_toFixed2: "rounded2 v (toFixed2 v)"
proof (cases "v < 0")
  case True
  define n where "n = \<lfloor>- v * 100 + 1 / 2\<rfloor>"
  have b: "of_int n \<le> - v * 100 + 1 / 2" "- v * 100 + 1 / 2 < of_int n + 1"
    unfolding n_def by linarith+
  have r: "toFixed2 v = - (of_int n / 100)"
    using True by (simp add: toFixed2_def n_def)
  have fl: "\<lfloor>- real_of_int n\<rfloor> = - n"
    by (metis floor_of_int of_int_minus)
  have "- (real_of_int n / 100) * 100 = - real_of_int n"
    by simp
  then have m: "- (real_of_int n / 100) * 100 = of_int \<lfloor>- (real_of_int n / 100) * 100\<rfloor>"
    using fl by simp
  have "\<bar>- (real_of_int n / 100) - v\<bar> \<le> 1 / 200"
    using b by linarith
  with m show ?thesis
    unfolding rounded2_def r by simp
next
  case False
  define n where "n = \<lfloor>v * 100 + 1 / 2\<rfloor>"
  have b: "of_int n \<le> v * 100 + 1 / 2" "v * 100 + 1 / 2 < of_int n + 1"
    unfolding n_def by linarith+
  have r: "toFixed2 v = of_int n / 100"
    using False by (simp add: toFixed2_def n_def)
  have "\<bar>real_of_int n / 100 - v\<bar> \<le> 1 / 200"
    using b by linarith
  then show ?thesis
    unfolding rounded2_def r by simp
qed

lemma negative_class_eq:
  "spec_negative_class label
     = (includes_str (toLowerCase label) ''not'' \<or> toLowerCase label = ''not calamansi''
        \<or> toLowerCase label = ''not-calamansi'' \<or> toLowerCase label = ''not_calamansi'')"
  by (simp add: spec_negative_class_def spec_negative_spellings_def)

lemma detect_decide_verdict:
  "verdict_of (fst (detect_decide cfg req f w d1 d2 db))
     = Some (spec_decision (threshold_or_default (MODEL_1_THRESHOLD cfg))
               (threshold_or_default (MODEL_2_THRESHOLD cfg))
               (predictions_or_empty d1) (predictions_or_empty d2))"
proof (cases "predictions_or_empty d1")
  case Nil
  then show ?thesis
    by (simp add: detect_decide_def spec_decision_def verdict_of_def Let_def)
next
  case (Cons p ps)
  note P = Cons
  show ?thesis
  proof (cases "predictions_or_empty d2")
    case Nil
    then show ?thesis
      using P
      by (simp add: detect_decide_def spec_decision_def verdict_of_def Let_def
          top_of_is_arg_max negative_class_eq)
  next
    case (Cons q qs)
    then show ?thesis
      using P
      by (simp add: detect_decide_def spec_decision_def verdict_of_def Let_def
          top_of_is_arg_max negative_class_eq)
  qed
qed

lemma detect_decide_Detected:
  assumes "fst (detect_decide cfg req f w d1 d2 db) = Detected rd"
  shows "\<exists>p ps q qs. predictions_or_empty d1 = p # ps \<and> predictions_or_empty d2 = q # qs
           \<and> model1_class rd = toLowerCase (p_class (top_of p (p # ps)))
           \<and> model1_confidence rd = toFixed2 (p_confidence (top_of p (p # ps)) * 100)
           \<and> model2_class rd = toLowerCase (p_class (top_of q (q # qs)))
           \<and> model2_confidence rd = toFixed2 (p_confidence (top_of q (q # qs)) * 100)
           \<and> allPredictions rd = map to_candidate (take 5 (q # qs))"
  using assms
  by (auto simp: detect_decide_def Let_def split: list.splits if_splits)

text \<open>
  C6. The answer of the handler's checks is the verdict of the specified sequence, applied
  in the specified order to the same prediction sets with the thresholds in force
  (0.50 when none is configured): no primary prediction, negative class above 0.70, low
  primary confidence, no secondary prediction, low secondary confidence, accepted. The
  top prediction of the code's \<open>reduce\<close> is the first arg-max by confidence. On acceptance
  the two confidences shown are the fractions times 100 rounded to two decimals (0.75 is
  shown as 75.00), while the comparisons are made on the fractions.
\<close>

theorem decision_sequence_as_specified:
  "verdict_of (fst (detect_decide cfg req f w pdata sdata db))
     = Some (spec_decision (threshold_or_default (MODEL_1_THRESHOLD cfg))
               (threshold_or_default (MODEL_2_THRESHOLD cfg))
               (predictions_or_empty pdata) (predictions_or_empty sdata))
   \<and> (fst (detect_decide cfg req f w pdata sdata db) = Detected rd
      \<longrightarrow> (\<exists>top1 top2. spec_arg_max (predictions_or_empty pdata) = Some top1
             \<and> spec_arg_max (predictions_or_empty sdata) = Some top2
             \<and> rounded2 (p_confidence top1 * 100) (model1_confidence rd)
             \<and> rounded2 (p_confidence top2 * 100) (model2_confidence rd)))
   \<and> threshold_or_default None = 0.50
   \<and> toFixed2 (0.75 * 100) = 75"
proof (intro conjI impI)
  show "verdict_of (fst (detect_decide cfg req f w pdata sdata db))
     = Some (spec_decision (threshold_or_default (MODEL_1_THRESHOLD cfg))
               (threshold_or_default (MODEL_2_THRESHOLD cfg))
               (predictions_or_empty pdata) (predictions_or_empty sdata))"
    by (rule detect_decide_verdict)
next
  assume "fst (detect_decide cfg req f w pdata sdata db) = Detected rd"
  then obtain p ps q qs where
    k: "predictions_or_empty pdata = p # ps" "predictions_or_empty sdata = q # qs"
      "model1_confidence rd = toFixed2 (p_confidence (top_of p (p # ps)) * 100)"
      "model2_confidence rd = toFixed2 (p_confidence (top_of q (q # qs)) * 100)"
    using detect_decide_Detected by blast
  show "\<exists>top1 top2. spec_arg_max (predictions_or_empty pdata) = Some top1
             \<and> spec_arg_max (predictions_or_empty sdata) = Some top2
             \<and> rounded2 (p_confidence top1 * 100) (model1_confidence rd)
             \<and> rounded2 (p_confidence top2 * 100) (model2_confidence rd)"
    by (simp add: k top_of_is_arg_max rounded2_toFixed2)
next
  show "threshold_or_default None = 0.50"
    by (simp add: threshold_or_default_def)
next
  show "toFixed2 (0.75 * 100) = 75"
    by (simp add: toFixed2_def)
qed

theorem decision_sequence_as_specified_witness:
  "verdict_of (fst (detect_decide ex_config ex_request ex_file (ex_world (ex_ok []) (ex_ok []))
       (ex_data [ex_pred ''not calamansi'' 0.85]) (ex_data []) ex_database))
     = Some NegativeClassDetected
   \<and> verdict_of (fst (detect_decide ex_config ex_request ex_file (ex_world (ex_ok []) (ex_ok []))
       (ex_data [ex_pred ''calamansi'' 0.40]) (ex_data []) ex_database))
     = Some LowPrimaryConfidence
   \<and> verdict_of (fst (detect_decide ex_config ex_request ex_file (ex_world (ex_ok []) (ex_ok []))
       (ex_data [ex_pred ''calamansi'' 0.90]) (ex_data [ex_pred ''leaf_spot'' 0.30]) ex_database))
     = Some LowSecondaryConfidence
   \<and> verdict_of (fst (detect_decide ex_config ex_request ex_file (ex_world (ex_ok []) (ex_ok []))
       (ex_data [ex_pred ''calamansi'' 0.90]) (ex_data [ex_pred ''leaf_spot'' 0.75]) ex_database))
     = Some Accepted"
  using decision_sequence_as_specified
    [where cfg = ex_config and req = ex_request and f = ex_file
       and w = "ex_world (ex_ok []) (ex_ok [])"
       and pdata = "ex_data [ex_pred ''not calamansi'' 0.85]" and sdata = "ex_data []"
       and db = ex_database]
    decision_sequence_as_specified
    [where cfg = ex_config and req = ex_request and f = ex_file
       and w = "ex_world (ex_ok []) (ex_ok [])"
       and pdata = "ex_data [ex_pred ''calamansi'' 0.40]" and sdata = "ex_data []"
       and db = ex_database]
    decision_sequence_as_specified
    [where cfg = ex_config and req = ex_request and f = ex_file
       and w = "ex_world (ex_ok []) (ex_ok [])"
       and pdata = "ex_data [ex_pred ''calamansi'' 0.90]"
       and sdata = "ex_data [ex_pred ''leaf_spot'' 0.30]" and db = ex_database]
    decision_sequence_as_specified
    [where cfg = ex_config and req = ex_request and f = ex_file
       and w = "ex_world (ex_ok []) (ex_ok [])"
       and pdata = "ex_data [ex_pred ''calamansi'' 0.90]"
       and sdata = "ex_data [ex_pred ''leaf_spot'' 0.75]" and db = ex_database]
  by (simp add: spec_decision_def spec_arg_max_def spec_negative_class_def
      spec_negative_spellings_def threshold_or_default_def predictions_or_empty_def
      toLowerCase_def lower_char_def ex_config_def ex_data_def ex_pred_def)

text \<open>
  C5, as the code does it. An accepted answer carries the first five entries (fewer when
  there are fewer) of the secondary prediction set in the order of the upstream response,
  each with its class and with its confidence as a percentage rounded to two decimals.
\<close>

theorem top_candidates_are_first_five:
  "fst (detect_decide cfg req f w pdata sdata db) = Detected rd
   \<longrightarrow> allPredictions rd = map to_candidate (take 5 (predictions_or_empty sdata))
       \<and> length (allPredictions rd) \<le> 5
       \<and> (\<forall>i < length (allPredictions rd).
             c_class (allPredictions rd ! i) = p_class (predictions_or_empty sdata ! i)
             \<and> rounded2 (p_confidence (predictions_or_empty sdata ! i) * 100)
                 (c_confidence (allPredictions rd ! i)))"
proof
  assume "fst (detect_decide cfg req f w pdata sdata db) = Detected rd"
  then obtain q qs where
    k: "predictions_or_empty sdata = q # qs" "allPredictions rd = map to_candidate (take 5 (q # qs))"
    using detect_decide_Detected by blast
  have a: "allPredictions rd = map to_candidate (take 5 (predictions_or_empty sdata))"
    by (simp add: k)
  have b: "length (allPredictions rd) \<le> 5"
    unfolding a by simp
  have c: "c_class (allPredictions rd ! i) = p_class (predictions_or_empty sdata ! i)
             \<and> rounded2 (p_confidence (predictions_or_empty sdata ! i) * 100)
                 (c_confidence (allPredictions rd ! i))"
    if "i < length (allPredictions rd)" for i
  proof -
    have "i < length (take 5 (predictions_or_empty sdata))"
      using that unfolding a by simp
    then have "allPredictions rd ! i = to_candidate (predictions_or_empty sdata ! i)"
      unfolding a by simp
    then show ?thesis
      by (simp add: to_candidate_def rounded2_toFixed2)
  qed
  show "allPredictions rd = map to_candidate (take 5 (predictions_or_empty sdata))
       \<and> length (allPredictions rd) \<le> 5
       \<and> (\<forall>i < length (allPredictions rd).
             c_class (allPredictions rd ! i) = p_class (predictions_or_empty sdata ! i)
             \<and> rounded2 (p_confidence (predictions_or_empty sdata ! i) * 100)
                 (c_confidence (allPredictions rd ! i)))"
    using a b c by blast
qed

lemma ex_two_candidates:
  "fst (detect_decide ex_config ex_request ex_file (ex_world (ex_ok []) (ex_ok []))
       (ex_data [ex_pred ''Calamansi'' 0.9])
       (ex_data [ex_pred ''scab'' 0.6, ex_pred ''leaf_spot'' 0.9]) ex_database)
     = Detected
         \<lparr>model1_class = ''calamansi'', model1_confidence = 90,
          model2_class = ''leaf_spot'', model2_confidence = 90,
          boundingBox = (1, 2, 3, 4), imageData = ''data:image/jpeg;base64,YWI='',
          imageWidth = 640, imageHeight = 480,
          allPredictions =
            [\<lparr>c_class = ''scab'', c_confidence = 60, c_x = 1, c_y = 2, c_width = 3,
              c_height = 4\<rparr>,
             \<lparr>c_class = ''leaf_spot'', c_confidence = 90, c_x = 1, c_y = 2, c_width = 3,
              c_height = 4\<rparr>],
          timestamp = 1210, processingTime = 210\<rparr>"
  by (simp add: handler_defs ex_config_def ex_request_def ex_file_def ex_world_def ex_data_def
      ex_pred_def ex_database_def)

theorem top_candidates_are_first_five_witness:
  "allPredictions
     \<lparr>model1_class = ''calamansi'', model1_confidence = 90,
      model2_class = ''leaf_spot'', model2_confidence = 90,
      boundingBox = (1, 2, 3, 4), imageData = ''data:image/jpeg;base64,YWI='',
      imageWidth = 640, imageHeight = 480,
      allPredictions =
        [\<lparr>c_class = ''scab'', c_confidence = 60, c_x = 1, c_y = 2, c_width = 3,
          c_height = 4\<rparr>,
         \<lparr>c_class = ''leaf_spot'', c_confidence = 90, c_x = 1, c_y = 2, c_width = 3,
          c_height = 4\<rparr>],
      timestamp = 1210, processingTime = 210\<rparr>
     = map to_candidate
         (take 5 (predictions_or_empty (ex_data [ex_pred ''scab'' 0.6, ex_pred ''leaf_spot'' 0.9])))"
  using ex_two_candidates
    top_candidates_are_first_five
      [where cfg = ex_config and req = ex_request and f = ex_file
         and w = "ex_world (ex_ok []) (ex_ok [])" and pdata = "ex_data [ex_pred ''Calamansi'' 0.9]"
         and sdata = "ex_data [ex_pred ''scab'' 0.6, ex_pred ''leaf_spot'' 0.9]"
         and db = ex_database]
  by blast

text \<open>
  With the secondary predictions scab at 0.6 followed by leaf_spot at 0.9 the accepted
  answer lists scab first; the five highest by confidence would list leaf_spot first.
\<close>

theorem top_candidates_not_sorted_counterexample:
  "fst (detect ex_config ex_request
       (ex_world (ex_ok [ex_pred ''Calamansi'' 0.9])
          (ex_ok [ex_pred ''scab'' 0.6, ex_pred ''leaf_spot'' 0.9])) ex_server)
     = Detected
         \<lparr>model1_class = ''calamansi'', model1_confidence = 90,
          model2_class = ''leaf_spot'', model2_confidence = 90,
          boundingBox = (1, 2, 3, 4), imageData = ''data:image/jpeg;base64,YWI='',
          imageWidth = 640, imageHeight = 480,
          allPredictions =
            [\<lparr>c_class = ''scab'', c_confidence = 60, c_x = 1, c_y = 2, c_width = 3,
              c_height = 4\<rparr>,
             \<lparr>c_class = ''leaf_spot'', c_confidence = 90, c_x = 1, c_y = 2, c_width = 3,
              c_height = 4\<rparr>],
          timestamp = 1210, processingTime = 210\<rparr>
   \<and> map to_candidate (spec_top_candidates [ex_pred ''scab'' 0.6, ex_pred ''leaf_spot'' 0.9])
     = [\<lparr>c_class = ''leaf_spot'', c_confidence = 90, c_x = 1, c_y = 2, c_width = 3,
         c_height = 4\<rparr>,
        \<lparr>c_class = ''scab'', c_confidence = 60, c_x = 1, c_y = 2, c_width = 3,
         c_height = 4\<rparr>]
   \<and> map to_candidate (take 5 [ex_pred ''scab'' 0.6, ex_pred ''leaf_spot'' 0.9])
     \<noteq> map to_candidate (spec_top_candidates [ex_pred ''scab'' 0.6, ex_pred ''leaf_spot'' 0.9])"
  by (simp add: handler_defs ex_config_def ex_request_def ex_world_def ex_ok_def ex_pred_def
      ex_server_def ex_circuit_def ex_database_def spec_top_candidates_def)

lemma detect_decide_negative_low:
  assumes "predictions_or_empty pdata = p # ps"
    and "includes_str (toLowerCase (p_class (top_of p (p # ps)))) ''not''"
    and "p_confidence (top_of p (p # ps)) \<le> 0.70"
  shows "fst (detect_decide cfg req f w pdata sdata db)
           = (case predictions_or_empty sdata of
                [] \<Rightarrow> No_disease_signs
              | q # qs \<Rightarrow>
                  if p_confidence (top_of q (q # qs)) < threshold_or_default (MODEL_2_THRESHOLD cfg)
                  then Low_disease_confidence (toFixed2 (p_confidence (top_of q (q # qs)) * 100))
                  else Detected
                    \<lparr>model1_class = toLowerCase (p_class (top_of p (p # ps))),
                     model1_confidence = toFixed2 (p_confidence (top_of p (p # ps)) * 100),
                     model2_class = toLowerCase (p_class (top_of q (q # qs))),
                     model2_confidence = toFixed2 (p_confidence (top_of q (q # qs)) * 100),
                     boundingBox =
                       (p_x (top_of q (q # qs)), p_y (top_of q (q # qs)),
                        p_width (top_of q (q # qs)), p_height (top_of q (q # qs))),
                     imageData = ''data:'' @ mimetype f @ '';base64,'' @ base64Image w,
                     imageWidth = image_width sdata, imageHeight = image_height sdata,
                     allPredictions = map to_candidate (take 5 (q # qs)),
                     timestamp = endTime w, processingTime = endTime w - startTime w\<rparr>)"
  using assms by (simp add: detect_decide_def Let_def split: list.splits)

text \<open>
  C9. When the top primary prediction has a lowercased label containing "not" and a
  confidence of at most 0.70, however low, none of the three primary rejections is given:
  the verdict is one of the secondary stage, and when the secondary checks pass the answer
  is a detection whose \<open>model1_class\<close> is that negative-class label. An input with
  "Not Calamansi" at 0.10 is accepted in this way.
\<close>

theorem negative_class_at_most_70_passes_primary_stage:
  "(predictions_or_empty pdata = p # ps
      \<and> includes_str (toLowerCase (p_class (top_of p (p # ps)))) ''not''
      \<and> p_confidence (top_of p (p # ps)) \<le> 0.70
     \<longrightarrow> verdict_of (fst (detect_decide cfg req f w pdata sdata db))
           \<in> {Some NoSecondaryPrediction, Some LowSecondaryConfidence, Some Accepted}
         \<and> (\<forall>q qs. predictions_or_empty sdata = q # qs
                \<and> \<not> p_confidence (top_of q (q # qs)) < threshold_or_default (MODEL_2_THRESHOLD cfg)
              \<longrightarrow> (\<exists>rd. fst (detect_decide cfg req f w pdata sdata db) = Detected rd
                     \<and> model1_class rd = toLowerCase (p_class (top_of p (p # ps))))))
   \<and> (\<exists>rd. fst (detect_decide ex_config ex_request ex_file (ex_world (ex_ok []) (ex_ok []))
               (ex_data [ex_pred ''Not Calamansi'' 0.10]) (ex_data [ex_pred ''leaf_spot'' 0.75])
               ex_database) = Detected rd
          \<and> model1_class rd = ''not calamansi'')"
proof (intro conjI impI allI)
  assume h: "predictions_or_empty pdata = p # ps
      \<and> includes_str (toLowerCase (p_class (top_of p (p # ps)))) ''not''
      \<and> p_confidence (top_of p (p # ps)) \<le> 0.70"
  note e = detect_decide_negative_low [of pdata p ps cfg req f w sdata db]
  show "verdict_of (fst (detect_decide cfg req f w pdata sdata db))
           \<in> {Some NoSecondaryPrediction, Some LowSecondaryConfidence, Some Accepted}"
    using h by (simp add: e verdict_of_def split: list.splits)
  fix q qs
  assume "predictions_or_empty sdata = q # qs
                \<and> \<not> p_confidence (top_of q (q # qs)) < threshold_or_default (MODEL_2_THRESHOLD cfg)"
  then show "\<exists>rd. fst (detect_decide cfg req f w pdata sdata db) = Detected rd
                     \<and> model1_class rd = toLowerCase (p_class (top_of p (p # ps)))"
    using h by (simp add: e)
next
  show "\<exists>rd. fst (detect_decide ex_config ex_request ex_file (ex_world (ex_ok []) (ex_ok []))
               (ex_data [ex_pred ''Not Calamansi'' 0.10]) (ex_data [ex_pred ''leaf_spot'' 0.75])
               ex_database) = Detected rd
          \<and> model1_class rd = ''not calamansi''"
    by (simp add: handler_defs ex_config_def ex_request_def ex_file_def ex_world_def ex_data_def
        ex_pred_def ex_database_def)
qed

theorem negative_class_at_most_70_passes_primary_stage_witness:
  "verdict_of (fst (detect_decide ex_config ex_request ex_file (ex_world (ex_ok []) (ex_ok []))
       (ex_data [ex_pred ''Not Calamansi'' 0.10]) (ex_data [ex_pred ''leaf_spot'' 0.75])
       ex_database))
     \<in> {Some NoSecondaryPrediction, Some LowSecondaryConfidence, Some Accepted}
   \<and> (\<exists>rd. fst (detect_decide ex_config ex_request ex_file (ex_world (ex_ok []) (ex_ok []))
               (ex_data [ex_pred ''Not Calamansi'' 0.10]) (ex_data [ex_pred ''leaf_spot'' 0.75])
               ex_database) = Detected rd
          \<and> model1_class rd = toLowerCase ''Not Calamansi'')"
proof -
  have h: "predictions_or_empty (ex_data [ex_pred ''Not Calamansi'' 0.10])
             = ex_pred ''Not Calamansi'' 0.10 # []
      \<and> includes_str (toLowerCase (p_class
            (top_of (ex_pred ''Not Calamansi'' 0.10) (ex_pred ''Not Calamansi'' 0.10 # []))))
          ''not''
      \<and> p_confidence (top_of (ex_pred ''Not Calamansi'' 0.10) (ex_pred ''Not Calamansi'' 0.10 # []))
          \<le> 0.70"
    by (simp add: predictions_or_empty_def ex_data_def ex_pred_def top_of_def toLowerCase_def
        lower_char_def)
  have k: "predictions_or_empty (ex_data [ex_pred ''leaf_spot'' 0.75])
             = ex_pred ''leaf_spot'' 0.75 # []
      \<and> \<not> p_confidence (top_of (ex_pred ''leaf_spot'' 0.75) (ex_pred ''leaf_spot'' 0.75 # []))
            < threshold_or_default (MODEL_2_THRESHOLD ex_config)"
    by (simp add: predictions_or_empty_def ex_data_def ex_pred_def top_of_def
        threshold_or_default_def ex_config_def)
  have c: "p_class (top_of (ex_pred ''Not Calamansi'' 0.10) (ex_pred ''Not Calamansi'' 0.10 # []))
             = ''Not Calamansi''"
    by (simp add: ex_pred_def top_of_def)
  note t = negative_class_at_most_70_passes_primary_stage
      [where pdata = "ex_data [ex_pred ''Not Calamansi'' 0.10]"
         and p = "ex_pred ''Not Calamansi'' 0.10" and ps = "[]"
         and sdata = "ex_data [ex_pred ''leaf_spot'' 0.75]"
         and cfg = ex_config and req = ex_request and f = ex_file
         and w = "ex_world (ex_ok []) (ex_ok [])" and db = ex_database]
  from t h have a: "verdict_of (fst (detect_decide ex_config ex_request ex_file
       (ex_world (ex_ok []) (ex_ok []))
       (ex_data [ex_pred ''Not Calamansi'' 0.10]) (ex_data [ex_pred ''leaf_spot'' 0.75])
       ex_database))
     \<in> {Some NoSecondaryPrediction, Some LowSecondaryConfidence, Some Accepted}"
    by blast
  from t h k have b: "\<exists>rd. fst (detect_decide ex_config ex_request ex_file
               (ex_world (ex_ok []) (ex_ok []))
               (ex_data [ex_pred ''Not Calamansi'' 0.10]) (ex_data [ex_pred ''leaf_spot'' 0.75])
               ex_database) = Detected rd
          \<and> model1_class rd = toLowerCase (p_class
               (top_of (ex_pred ''Not Calamansi'' 0.10) (ex_pred ''Not Calamansi'' 0.10 # [])))"
    by blast
  from a b show ?thesis
    unfolding c by blast
qed

end
